theory Spec2Isabelle
  imports Complex_Main "HOL-Library.Sublist"
begin

section \<open>BoardBot frontend: data model and operations\<close>

text \<open>
  A shallow embedding of the parts of the BoardBot frontend (TypeScript, XState v5 state
  machines, Zod schemas) that the verified properties are about. Values that cross a JSON
  boundary are modelled dynamically, as the JavaScript values they are at run time; the
  state machines are step functions on their state value and context, returning the
  effects (messages sent, notifications emitted) of the step.
\<close>

subsection \<open>JavaScript values\<close>

text \<open>
  Run-time values. An object is an association list of its own properties in insertion
  order; a property whose value is \<open>undefined\<close> is still a property. \<open>JDate\<close> holds the
  time value in milliseconds, \<open>None\<close> for an Invalid Date. \<open>JActor\<close> is a reference to an
  actor spawned from the given machine with the given input or spawn options.
\<close>

datatype jsval =
    JUndefined
  | JNull
  | JBool bool
  | JNum rat
  | JStr string
  | JDate "int option"
  | JArr "jsval list"
  | JObj "(string \<times> jsval) list"
  | JActor string jsval

text \<open>
  A thrown JavaScript exception is a value of \<open>js_error\<close>; a function that may throw
  returns \<open>js_error + 'a\<close> with \<open>Inl\<close> for the exception. \<open>ErrorAbout m v\<close> is an
  \<open>Error\<close> whose message is the text \<open>m\<close> followed by the text of the value \<open>v\<close>, and
  \<open>ErrorFrom m e\<close> one whose message is \<open>m\<close> followed by the message of the error \<open>e\<close>
  (template literals in the source).
\<close>

datatype js_error =
    ZodError | SyntaxError | TypeError | Error string
  | ErrorAbout string jsval | ErrorFrom string js_error

type_synonym fields = "(string \<times> jsval) list"

text \<open>
  The two host functions the code calls whose results the repository does not determine:
  \<open>JSON.parse\<close> (\<open>None\<close> when it throws a SyntaxError) and the date-string parser behind
  \<open>new Date(string)\<close> (\<open>None\<close> for an Invalid Date).
\<close>

record platform =
  JSON_parse :: "string \<Rightarrow> jsval option"
  Date_parse :: "string \<Rightarrow> int option"

text \<open>
  Property read \<open>o[k]\<close>, the \<open>in\<close> operator, assignment \<open>o[k] = v\<close>, \<open>delete o[k]\<close>
  and \<open>Object.assign\<close> (also the object spread \<open>{...a, ...b}\<close>).
\<close>

definition obj_get :: "string \<Rightarrow> fields \<Rightarrow> jsval" where
  "obj_get k fs = (case map_of fs k of None \<Rightarrow> JUndefined | Some v \<Rightarrow> v)"

definition obj_has :: "string \<Rightarrow> fields \<Rightarrow> bool" where
  "obj_has k fs \<longleftrightarrow> map_of fs k \<noteq> None"

fun obj_set :: "string \<Rightarrow> jsval \<Rightarrow> fields \<Rightarrow> fields" where
  "obj_set k v [] = [(k, v)]"
| "obj_set k v ((k', v') # fs) = (if k' = k then (k, v) # fs else (k', v') # obj_set k v fs)"

definition obj_delete :: "string \<Rightarrow> fields \<Rightarrow> fields" where
  "obj_delete k fs = filter (\<lambda>kv. fst kv \<noteq> k) fs"

definition obj_assign :: "fields \<Rightarrow> fields \<Rightarrow> fields" where
  "obj_assign target source = foldl (\<lambda>acc kv. obj_set (fst kv) (snd kv) acc) target source"

subsection \<open>Zod schemas\<close>

text \<open>
  A schema is its \<open>parse\<close> function: \<open>Inl ZodError\<close> when validation fails, otherwise the
  parsed output. \<open>z.object\<close> reads each key of its shape from the input, drops every key
  that is not in the shape, and keeps a shape key in the output when its parsed value is
  not \<open>undefined\<close> or the key is in the input. \<open>z.union\<close> returns the result of the first
  member that accepts the input.
\<close>

type_synonym zod = "jsval \<Rightarrow> js_error + jsval"

fun succeeds :: "js_error + 'a \<Rightarrow> bool" where
  "succeeds (Inr r) = True"
| "succeeds (Inl e) = False"

definition z_string :: zod where
  "z_string v = (case v of JStr s \<Rightarrow> Inr v | _ \<Rightarrow> Inl ZodError)"

definition z_boolean :: zod where
  "z_boolean v = (case v of JBool b \<Rightarrow> Inr v | _ \<Rightarrow> Inl ZodError)"

definition z_number :: zod where
  "z_number v = (case v of JNum n \<Rightarrow> Inr v | _ \<Rightarrow> Inl ZodError)"

definition z_date :: zod where
  "z_date v = (case v of JDate (Some t) \<Rightarrow> Inr v | _ \<Rightarrow> Inl ZodError)"

definition z_any :: zod where
  "z_any v = Inr v"

definition z_unknown :: zod where
  "z_unknown v = Inr v"

definition z_literal :: "jsval \<Rightarrow> zod" where
  "z_literal lit v = (if v = lit then Inr v else Inl ZodError)"

definition z_enum :: "string list \<Rightarrow> zod" where
  "z_enum vals v = (case v of JStr s \<Rightarrow> if s \<in> set vals then Inr v else Inl ZodError | _ \<Rightarrow> Inl ZodError)"

definition z_optional :: "zod \<Rightarrow> zod" where
  "z_optional p v = (if v = JUndefined then Inr JUndefined else p v)"

definition z_nullable :: "zod \<Rightarrow> zod" where
  "z_nullable p v = (if v = JNull then Inr JNull else p v)"

fun z_union :: "zod list \<Rightarrow> zod" where
  "z_union [] v = Inl ZodError"
| "z_union (p # ps) v = (case p v of Inr r \<Rightarrow> Inr r | Inl e \<Rightarrow> z_union ps v)"

definition z_transform :: "zod \<Rightarrow> (jsval \<Rightarrow> jsval) \<Rightarrow> zod" where
  "z_transform p f v = (case p v of Inl e \<Rightarrow> Inl e | Inr r \<Rightarrow> Inr (f r))"

fun z_items :: "zod \<Rightarrow> jsval list \<Rightarrow> js_error + jsval list" where
  "z_items p [] = Inr []"
| "z_items p (x # xs) =
     (case p x of Inl e \<Rightarrow> Inl e
      | Inr r \<Rightarrow> (case z_items p xs of Inl e \<Rightarrow> Inl e | Inr rs \<Rightarrow> Inr (r # rs)))"

definition z_array :: "zod \<Rightarrow> zod" where
  "z_array p v =
     (case v of JArr xs \<Rightarrow> (case z_items p xs of Inl e \<Rightarrow> Inl e | Inr rs \<Rightarrow> Inr (JArr rs))
      | _ \<Rightarrow> Inl ZodError)"

fun z_entries :: "zod \<Rightarrow> fields \<Rightarrow> js_error + fields" where
  "z_entries p [] = Inr []"
| "z_entries p ((k, x) # fs) =
     (case p x of Inl e \<Rightarrow> Inl e
      | Inr r \<Rightarrow> (case z_entries p fs of Inl e \<Rightarrow> Inl e | Inr rs \<Rightarrow> Inr ((k, r) # rs)))"

definition z_record :: "zod \<Rightarrow> zod" where
  "z_record p v =
     (case v of JObj fs \<Rightarrow> (case z_entries p fs of Inl e \<Rightarrow> Inl e | Inr rs \<Rightarrow> Inr (JObj rs))
      | _ \<Rightarrow> Inl ZodError)"

fun z_shape :: "(string \<times> zod) list \<Rightarrow> fields \<Rightarrow> js_error + fields" where
  "z_shape [] fs = Inr []"
| "z_shape ((k, p) # sh) fs =
     (case p (obj_get k fs) of Inl e \<Rightarrow> Inl e
      | Inr r \<Rightarrow>
         (case z_shape sh fs of Inl e \<Rightarrow> Inl e
          | Inr rs \<Rightarrow> Inr (if r \<noteq> JUndefined \<or> obj_has k fs then (k, r) # rs else rs)))"

definition z_object :: "(string \<times> zod) list \<Rightarrow> zod" where
  "z_object sh v =
     (case v of JObj fs \<Rightarrow> (case z_shape sh fs of Inl e \<Rightarrow> Inl e | Inr rs \<Rightarrow> Inr (JObj rs))
      | _ \<Rightarrow> Inl ZodError)"

subsection \<open>The schemas of the repository\<close>

text \<open>\<open>ProductSchema\<close> (types/productTypes.ts).\<close>

definition ProductSchema :: zod where
  "ProductSchema = z_object
     [(''id'', z_nullable (z_optional z_string)),
      (''productId'', z_string),
      (''duplicateIds'', z_nullable (z_optional (z_array z_string))),
      (''name'', z_string),
      (''manufacturer'', z_string),
      (''formFactor'', z_string),
      (''evaluationOrCommercialization'', z_nullable (z_optional z_string)),
      (''processorArchitecture'', z_nullable (z_optional z_string)),
      (''processorCoreCount'', z_nullable (z_optional z_string)),
      (''processorManufacturer'', z_nullable (z_optional z_string)),
      (''processorTdp'', z_nullable (z_optional z_string)),
      (''memory'', z_nullable (z_optional z_string)),
      (''onboardStorage'', z_nullable (z_optional z_string)),
      (''inputVoltage'', z_nullable (z_optional z_string)),
      (''ioCount'', z_nullable (z_optional (z_array z_string))),
      (''wireless'', z_nullable (z_optional (z_array z_string))),
      (''operatingSystemBsp'', z_nullable (z_optional (z_array z_string))),
      (''operatingTemperatureMax'', z_nullable (z_optional z_string)),
      (''operatingTemperatureMin'', z_nullable (z_optional z_string)),
      (''certifications'', z_nullable (z_optional (z_array z_string))),
      (''price'', z_nullable (z_optional z_string)),
      (''stockAvailability'', z_nullable (z_optional z_string))]"

text \<open>The enumerations and message schemas (types/chatTypes.ts).\<close>

definition MODEL_VALUES :: "string list" where
  "MODEL_VALUES = [''gpt-4o'', ''gpt-4o-mini'', ''gpt-4-turbo'', ''gpt-3.5-turbo'',
     ''claude-3-sonnet-20240229'', ''claude-3-5-haiku-20241022'']"

definition ARCHITECTURE_VALUES :: "string list" where
  "ARCHITECTURE_VALUES = [''semantic-router'', ''llm-router'', ''hybrid-router'', ''dynamic-agent'']"

definition HISTORY_MANAGEMENT_VALUES :: "string list" where
  "HISTORY_MANAGEMENT_VALUES = [''keep-none'', ''keep-last-5'', ''keep-all'']"

definition ModelSchema :: zod where "ModelSchema = z_enum MODEL_VALUES"
definition ArchitectureSchema :: zod where "ArchitectureSchema = z_enum ARCHITECTURE_VALUES"
definition HistoryManagementSchema :: zod where "HistoryManagementSchema = z_enum HISTORY_MANAGEMENT_VALUES"

definition BaseMessageShape :: "(string \<times> zod) list" where
  "BaseMessageShape =
     [(''messageId'', z_string),
      (''timestamp'', z_date),
      (''isComplete'', z_boolean),
      (''model'', ModelSchema),
      (''architectureChoice'', ArchitectureSchema),
      (''historyManagementChoice'', HistoryManagementSchema)]"

definition RequestMessageSchema :: zod where
  "RequestMessageSchema = z_object (BaseMessageShape @
     [(''isUserMessage'', z_literal (JBool True)),
      (''message'', z_string)])"

definition ResponseContentSchema :: zod where
  "ResponseContentSchema = z_object
     [(''type'', z_string),
      (''message'', z_string),
      (''products'', z_optional (z_array ProductSchema)),
      (''reasoning'', z_optional z_string),
      (''followUpQuestion'', z_optional (z_union [z_string, z_array z_string])),
      (''metadata'', z_optional (z_record z_unknown))]"

definition new_Date :: "platform \<Rightarrow> jsval \<Rightarrow> jsval" where
  "new_Date pf val = (case val of JDate t \<Rightarrow> JDate t | JStr s \<Rightarrow> JDate (Date_parse pf s) | _ \<Rightarrow> JDate None)"

definition ResponseMessageSchema :: "platform \<Rightarrow> zod" where
  "ResponseMessageSchema pf = z_object
     [(''messageId'', z_string),
      (''sessionId'', z_string),
      (''message'', ResponseContentSchema),
      (''isComplete'', z_boolean),
      (''model'', ModelSchema),
      (''architectureChoice'', ArchitectureSchema),
      (''historyManagementChoice'', HistoryManagementSchema),
      (''isUserMessage'', z_literal (JBool False)),
      (''timestamp'', z_transform (z_union [z_date, z_string]) (new_Date pf))]"

definition ChatHistoryItemSchema :: "platform \<Rightarrow> zod" where
  "ChatHistoryItemSchema pf = z_union [RequestMessageSchema, ResponseMessageSchema pf]"

definition RequestDataSchema :: zod where
  "RequestDataSchema = z_object
     [(''type'', z_string),
      (''sessionId'', z_string),
      (''messageId'', z_string),
      (''message'', z_string),
      (''timestamp'', z_optional z_string),
      (''model'', ModelSchema),
      (''architectureChoice'', ArchitectureSchema),
      (''historyManagementChoice'', HistoryManagementSchema)]"

subsection \<open>Key case conversion\<close>

text \<open>
  The module lib/caseConversion (\<open>transformKeys\<close>, \<open>deepCamelCase\<close>) is imported by the
  type modules but is not among the source files.
\<close>

definition lower_case_letters :: string where
  "lower_case_letters = ''abcdefghijklmnopqrstuvwxyz''"

definition upper_case_letters :: string where
  "upper_case_letters = ''ABCDEFGHIJKLMNOPQRSTUVWXYZ''"

definition is_lower :: "char \<Rightarrow> bool" where
  "is_lower c \<longleftrightarrow> c \<in> set lower_case_letters"

definition is_upper :: "char \<Rightarrow> bool" where
  "is_upper c \<longleftrightarrow> c \<in> set upper_case_letters"

definition to_upper :: "char \<Rightarrow> char" where
  "to_upper c = (case map_of (zip lower_case_letters upper_case_letters) c of Some u \<Rightarrow> u | None \<Rightarrow> c)"

definition to_lower :: "char \<Rightarrow> char" where
  "to_lower c = (case map_of (zip upper_case_letters lower_case_letters) c of Some l \<Rightarrow> l | None \<Rightarrow> c)"

text \<open>
  Modelled from the spec: the key transformation of lib/caseConversion, which is not
  among the source files. A snake-case key becomes camelCase (an underscore followed by a
  lower-case letter becomes that letter in upper case) and a camelCase key becomes
  snake-case (an upper-case letter becomes an underscore and that letter in lower case).
\<close>

fun snakeToCamel :: "string \<Rightarrow> string" where
  "snakeToCamel (c # d # cs) =
     (if c = CHR ''_'' \<and> is_lower d then to_upper d # snakeToCamel cs
      else c # snakeToCamel (d # cs))"
| "snakeToCamel cs = cs"

fun camelToSnake :: "string \<Rightarrow> string" where
  "camelToSnake [] = []"
| "camelToSnake (c # cs) =
     (if is_upper c then CHR ''_'' # to_lower c # camelToSnake cs else c # camelToSnake cs)"

text \<open>
  Modelled from the spec: \<open>transformKeys\<close> and \<open>deepCamelCase\<close> of lib/caseConversion, which
  is not among the source files. \<open>transformKeys\<close> converts the keys of the object it is
  given; \<open>deepCamelCase\<close> converts the keys of every object nested in a value (the callers
  apply it to the \<open>message\<close> field after \<open>transformKeys\<close>). When two keys convert to the
  same key, the later value is kept in the earlier position, as assignment to an object
  does.
\<close>

datatype key_direction = SnakeToCamel | CamelToSnake

fun key_transformer :: "key_direction \<Rightarrow> string \<Rightarrow> string" where
  "key_transformer SnakeToCamel = snakeToCamel"
| "key_transformer CamelToSnake = camelToSnake"

definition rekey :: "(string \<Rightarrow> string) \<Rightarrow> fields \<Rightarrow> fields" where
  "rekey f fs = foldl (\<lambda>acc kv. obj_set (f (fst kv)) (snd kv) acc) [] fs"

fun deep_keys :: "(string \<Rightarrow> string) \<Rightarrow> jsval \<Rightarrow> jsval" where
  "deep_keys f (JObj fs) = JObj (rekey f (map (\<lambda>kv. (fst kv, deep_keys f (snd kv))) fs))"
| "deep_keys f (JArr xs) = JArr (map (deep_keys f) xs)"
| "deep_keys f v = v"

definition transformKeys :: "fields \<Rightarrow> key_direction \<Rightarrow> fields" where
  "transformKeys obj dir = rekey (key_transformer dir) obj"

definition deepCamelCase :: "jsval \<Rightarrow> jsval" where
  "deepCamelCase v = deep_keys snakeToCamel v"

subsection \<open>Parsing and serialising at the JSON boundary\<close>

text \<open>\<open>productFromJson\<close> (types/productTypes.ts) and \<open>requestDataToJson\<close> (types/chatTypes.ts).\<close>

definition productFromJson :: "fields \<Rightarrow> js_error + jsval" where
  "productFromJson productJson =
     (let camelCaseData = transformKeys productJson SnakeToCamel
      in case ProductSchema (JObj camelCaseData) of
           Inl e \<Rightarrow> Inl (Error ''Invalid product data'')
         | Inr product \<Rightarrow> Inr product)"

definition requestDataToJson :: "fields \<Rightarrow> fields" where
  "requestDataToJson data = transformKeys data CamelToSnake"

text \<open>The attribute types of a product, as predicates on values.\<close>

fun is_str :: "jsval \<Rightarrow> bool" where
  "is_str (JStr s) = True"
| "is_str v = False"

fun is_str_array :: "jsval \<Rightarrow> bool" where
  "is_str_array (JArr xs) = list_all is_str xs"
| "is_str_array v = False"

definition absent_or_null_or :: "(jsval \<Rightarrow> bool) \<Rightarrow> jsval \<Rightarrow> bool" where
  "absent_or_null_or P v \<longleftrightarrow> v = JUndefined \<or> v = JNull \<or> P v"

definition product_required :: "string list" where
  "product_required = [''productId'', ''name'', ''manufacturer'', ''formFactor'']"

definition product_optional_strings :: "string list" where
  "product_optional_strings =
     [''id'', ''evaluationOrCommercialization'', ''processorArchitecture'', ''processorCoreCount'',
      ''processorManufacturer'', ''processorTdp'', ''memory'', ''onboardStorage'', ''inputVoltage'',
      ''operatingTemperatureMax'', ''operatingTemperatureMin'', ''price'', ''stockAvailability'']"

definition product_optional_arrays :: "string list" where
  "product_optional_arrays =
     [''duplicateIds'', ''ioCount'', ''wireless'', ''operatingSystemBsp'', ''certifications'']"

subsection \<open>The accuracy test runner (accuracyTestRunnerMachine)\<close>

text \<open>
  JavaScript numbers that the code obtains by dividing two counts: a rational number, or
  \<open>NaN\<close> (0 / 0), or \<open>Infinity\<close> (a positive count divided by 0). The quotients the
  verified properties are about are exact in floating point as well.
\<close>

datatype js_number = NaN | Infinity | Finite rat

definition js_div :: "nat \<Rightarrow> nat \<Rightarrow> js_number" where
  "js_div a b = (if b = 0 then (if a = 0 then NaN else Infinity) else Finite (of_nat a / of_nat b))"

fun js_times :: "js_number \<Rightarrow> rat \<Rightarrow> js_number" where
  "js_times (Finite x) k = Finite (x * k)"
| "js_times n k = n"

fun js_greater :: "js_number \<Rightarrow> rat \<Rightarrow> bool" where
  "js_greater (Finite x) k = (x > k)"
| "js_greater Infinity k = True"
| "js_greater NaN k = False"

text \<open>\<open>toLowerCase\<close>, on the ASCII letters.\<close>

definition toLowerCase :: "string \<Rightarrow> string" where
  "toLowerCase s = map to_lower s"

text \<open>
  A product as the test helpers see it: they read its \<open>name\<close> and nothing else, so the
  record is open for the other attributes.
\<close>

record product =
  name :: string

definition calculateProductAccuracy ::
  "'a product_scheme list \<Rightarrow> 'b product_scheme list option \<Rightarrow> js_number" where
  "calculateProductAccuracy actualProducts expectedProducts =
     (case expectedProducts of
        None \<Rightarrow> Finite 1
      | Some expected \<Rightarrow>
          (let expectedProductNames = set (map (\<lambda>p. toLowerCase (name p)) expected);
               matchedProducts = filter (\<lambda>p. toLowerCase (name p) \<in> expectedProductNames) actualProducts
           in js_div (length matchedProducts) (length expected)))"

definition isTestPassed :: "js_number \<Rightarrow> bool" where
  "isTestPassed productAccuracy = js_greater productAccuracy (4 / 10)"

text \<open>
  The data the runner works on. Of a test case it reads \<open>messageId\<close>, \<open>prompt\<close> and
  \<open>products\<close>; of a response, \<open>message.products\<close>.
\<close>

record test_case =
  tc_messageId :: string
  tc_prompt :: string
  tc_products :: "product list option"

record response_message =
  rm_messageId :: string
  rm_products :: "product list option"

record accuracy_test_result =
  response :: response_message
  productAccuracy :: js_number
  passed :: bool

record request_data =
  rd_type :: string
  rd_sessionId :: string
  rd_messageId :: string
  rd_message :: string
  rd_model :: string
  rd_architectureChoice :: string
  rd_historyManagementChoice :: string

record accuracy_context =
  ac_name :: string
  ac_sessionId :: string
  testCases :: "test_case list"
  testResults :: "accuracy_test_result list"
  currentTestIndex :: nat
  batchSize :: nat
  testTimeout :: nat
  progress :: js_number
  ac_model :: string
  ac_architecture :: string
  ac_historyManagement :: string

record accuracy_input =
  in_name :: string
  in_sessionId :: string
  in_testCases :: "test_case list"
  in_model :: string
  in_architecture :: string
  in_historyManagement :: string

text \<open>
  The context of a fresh runner: the optional inputs (\<open>testResults\<close>, \<open>currentTestIndex\<close>,
  \<open>batchSize\<close>, \<open>progress\<close>, \<open>testTimeout\<close>) are absent and take their defaults.
\<close>

definition accuracy_initial_context :: "accuracy_input \<Rightarrow> accuracy_context" where
  "accuracy_initial_context input =
     \<lparr>ac_name = in_name input, ac_sessionId = in_sessionId input, testCases = in_testCases input,
      testResults = [], currentTestIndex = 0, batchSize = 1, testTimeout = 10000,
      progress = Finite 0, ac_model = in_model input, ac_architecture = in_architecture input,
      ac_historyManagement = in_historyManagement input\<rparr>"

datatype accuracy_state =
    AccIdle | AccConnecting | AccSendingMessage | AccPaused | AccDisconnecting

datatype accuracy_event =
    UserStartTest | WebSocketConnected | UserPauseTest | WebSocketMessageReceived response_message
  | UserContinueTest | UserStopTest | WebSocketDisconnected

text \<open>What a step sends to the web-socket actor of the runner.\<close>

datatype accuracy_effect =
    SpawnWebSocket | ParentActorConnect string | ParentActorSendMessage request_data
  | ParentActorDisconnect

text \<open>
  The actions. \<open>testCases[currentTestIndex]\<close> is \<open>undefined\<close> past the end of the array,
  and reading a property of it throws a TypeError; so does \<open>actualProducts.filter\<close> when
  the response has no products.
\<close>

definition sendNextMessage :: "accuracy_context \<Rightarrow> js_error + accuracy_effect" where
  "sendNextMessage c =
     (if currentTestIndex c < length (testCases c)
      then let t = testCases c ! currentTestIndex c
           in Inr (ParentActorSendMessage
                \<lparr>rd_type = ''textMessage'', rd_sessionId = ac_sessionId c,
                 rd_messageId = tc_messageId t, rd_message = tc_prompt t, rd_model = ac_model c,
                 rd_architectureChoice = ac_architecture c,
                 rd_historyManagementChoice = ''keep-none''\<rparr>)
      else Inl TypeError)"

definition updateTestResults :: "accuracy_context \<Rightarrow> response_message \<Rightarrow> js_error + accuracy_context" where
  "updateTestResults c testResponse =
     (if currentTestIndex c < length (testCases c)
      then (case tc_products (testCases c ! currentTestIndex c) of
              None \<Rightarrow> Inl (Error ''Test case has no expected products'')
            | Some expected \<Rightarrow>
                (case rm_products testResponse of
                   None \<Rightarrow> Inl TypeError
                 | Some actual \<Rightarrow>
                     (let productAccuracy = calculateProductAccuracy actual (Some expected);
                          testResult = \<lparr>response = testResponse, productAccuracy = productAccuracy,
                                        passed = isTestPassed productAccuracy\<rparr>
                      in Inr (c\<lparr>testResults := testResults c @ [testResult]\<rparr>))))
      else Inl TypeError)"

definition increaseProgress :: "accuracy_context \<Rightarrow> accuracy_context" where
  "increaseProgress c =
     c\<lparr>progress := js_times (js_div (currentTestIndex c + 1) (length (testCases c))) 100\<rparr>"

definition increaseCurrentTestIndex :: "accuracy_context \<Rightarrow> accuracy_context" where
  "increaseCurrentTestIndex c = c\<lparr>currentTestIndex := currentTestIndex c + 1\<rparr>"

definition testIsComplete :: "accuracy_context \<Rightarrow> bool" where
  "testIsComplete c \<longleftrightarrow> int (currentTestIndex c) \<ge> int (length (testCases c)) - 1"

text \<open>
  Entering \<open>running.sendingMessage\<close> runs its entry action; \<open>running.evaluatingResult\<close>
  is left at once by its \<open>always\<close> transitions, the guarded one first.
\<close>

definition enter_sendingMessage ::
  "accuracy_context \<Rightarrow> js_error + (accuracy_state \<times> accuracy_context \<times> accuracy_effect list)" where
  "enter_sendingMessage c =
     (case sendNextMessage c of Inl e \<Rightarrow> Inl e
      | Inr msg \<Rightarrow> Inr (AccSendingMessage, c, [msg]))"

definition evaluatingResult ::
  "accuracy_context \<Rightarrow> js_error + (accuracy_state \<times> accuracy_context \<times> accuracy_effect list)" where
  "evaluatingResult c =
     (if testIsComplete c then Inr (AccDisconnecting, c, [ParentActorDisconnect])
      else enter_sendingMessage c)"

text \<open>
  One event of the machine. The actions of the \<open>webSocket.messageReceived\<close> transition run
  in the order they are listed, each on the context the one before it left:
  \<open>updateTestResults\<close>, \<open>increaseCurrentTestIndex\<close>, \<open>increaseProgress\<close>. An action that throws
  stops the actor (\<open>Inl\<close>). An event with no transition in the current state is dropped.
\<close>

fun accuracy_step ::
  "accuracy_state \<times> accuracy_context \<Rightarrow> accuracy_event
   \<Rightarrow> js_error + (accuracy_state \<times> accuracy_context \<times> accuracy_effect list)" where
  "accuracy_step (AccIdle, c) UserStartTest = Inr (AccConnecting, c, [ParentActorConnect (ac_sessionId c)])"
| "accuracy_step (AccConnecting, c) WebSocketConnected = enter_sendingMessage c"
| "accuracy_step (AccSendingMessage, c) (WebSocketMessageReceived r) =
     (case updateTestResults c r of Inl e \<Rightarrow> Inl e
      | Inr c1 \<Rightarrow> evaluatingResult (increaseProgress (increaseCurrentTestIndex c1)))"
| "accuracy_step (AccSendingMessage, c) UserStopTest = Inr (AccDisconnecting, c, [ParentActorDisconnect])"
| "accuracy_step (AccPaused, c) UserStopTest = Inr (AccDisconnecting, c, [ParentActorDisconnect])"
| "accuracy_step (AccSendingMessage, c) UserPauseTest = Inr (AccPaused, c, [])"
| "accuracy_step (AccPaused, c) UserPauseTest = Inr (AccPaused, c, [])"
| "accuracy_step (AccPaused, c) UserContinueTest = enter_sendingMessage c"
| "accuracy_step (AccDisconnecting, c) WebSocketDisconnected = Inr (AccIdle, c, [SpawnWebSocket])"
| "accuracy_step (s, c) e = Inr (s, c, [])"

text \<open>A run: the events in order, the effects collected; it ends at the first error.\<close>

fun accuracy_run ::
  "accuracy_state \<times> accuracy_context \<Rightarrow> accuracy_event list
   \<Rightarrow> js_error + (accuracy_state \<times> accuracy_context \<times> accuracy_effect list)" where
  "accuracy_run (s, c) [] = Inr (s, c, [])"
| "accuracy_run (s, c) (e # es) =
     (case accuracy_step (s, c) e of Inl err \<Rightarrow> Inl err
      | Inr (s1, c1, out1) \<Rightarrow>
          (case accuracy_run (s1, c1) es of Inl err \<Rightarrow> Inl err
           | Inr (s2, c2, out2) \<Rightarrow> Inr (s2, c2, out1 @ out2)))"

subsection \<open>The web-socket actor (webSocketMachine)\<close>

definition MAX_RECONNECTION_ATTEMPTS :: nat where
  "MAX_RECONNECTION_ATTEMPTS = 5"

text \<open>The context; a socket is an opaque handle.\<close>

record ws_context =
  socket :: "nat option"
  sessionId :: "string option"
  reconnectionAttempts :: nat

definition ws_initial_context :: ws_context where
  "ws_initial_context = \<lparr>socket = None, sessionId = None, reconnectionAttempts = 0\<rparr>"

datatype ws_state = WsIdle | WsConnecting | WsConnected

text \<open>
  The events of the machine, and the two outcomes of the invoked \<open>socketConnector\<close> promise
  (resolved with the socket and the session data, or rejected).
\<close>

datatype ws_event =
    ParentActor_connect string
  | ParentActor_sendMessage fields
  | ParentActor_disconnect
  | SocketListener_messageReceived jsval
  | SocketListener_disconnected
  | SocketConnector_done nat jsval
  | SocketConnector_error

datatype ws_parent_event =
    WebSocket_connected | WebSocket_messageReceived jsval | WebSocket_disconnected

text \<open>
  What a step does to the outside: it starts a connection attempt (invokes
  \<open>socketConnector\<close>), starts the listener, sends an event to the parent actor, emits a
  notification (type and message), emits on the socket, or closes it.
\<close>

datatype ws_effect =
    InvokeSocketConnector "string option"
  | InvokeSocketListener nat
  | SendParent ws_parent_event
  | EmitNotification string string
  | SocketEmit nat string fields
  | SocketClose nat

definition canReconnect :: "ws_context \<Rightarrow> bool" where
  "canReconnect c \<longleftrightarrow> reconnectionAttempts c < MAX_RECONNECTION_ATTEMPTS"

text \<open>
  The \<open>sendMessage\<close> action: the event data with \<open>sessionId\<close> overwritten by the context's
  is parsed by \<open>RequestDataSchema\<close> (which throws when it does not fit), converted to
  snake-case keys and emitted on the socket, if there is one.
\<close>

definition sendMessage :: "ws_context \<Rightarrow> fields \<Rightarrow> js_error + ws_effect list" where
  "sendMessage c data =
     (case RequestDataSchema
             (JObj (obj_set ''sessionId'' (case sessionId c of None \<Rightarrow> JNull | Some s \<Rightarrow> JStr s) data)) of
        Inl e \<Rightarrow> Inl e
      | Inr (JObj message) \<Rightarrow>
          (let snake_case_message = requestDataToJson message
           in Inr (case socket c of None \<Rightarrow> []
                   | Some s \<Rightarrow> [SocketEmit s ''text_message'' snake_case_message]))
      | Inr _ \<Rightarrow> Inl TypeError)"

text \<open>
  The state \<open>reconnecting\<close>: its entry action counts the attempt, then the \<open>always\<close>
  transitions are tried in order on the new context, the one guarded by \<open>canReconnect\<close>
  first. The state \<open>disconnecting\<close> closes the socket, tells the parent and goes to \<open>idle\<close>.
\<close>

definition reconnecting :: "ws_context \<Rightarrow> ws_state \<times> ws_context \<times> ws_effect list" where
  "reconnecting c =
     (let c1 = c\<lparr>reconnectionAttempts := reconnectionAttempts c + 1\<rparr>
      in if canReconnect c1
         then (WsIdle, c1, [EmitNotification ''error'' ''Failed to reconnect after multiple attempts''])
         else (WsConnecting, c1, [InvokeSocketConnector (sessionId c1)]))"

definition disconnecting :: "ws_context \<Rightarrow> ws_state \<times> ws_context \<times> ws_effect list" where
  "disconnecting c =
     (WsIdle, c, (case socket c of None \<Rightarrow> [] | Some s \<Rightarrow> [SocketClose s]) @
                 [SendParent WebSocket_disconnected])"

fun ws_step :: "ws_state \<times> ws_context \<Rightarrow> ws_event \<Rightarrow> js_error + (ws_state \<times> ws_context \<times> ws_effect list)" where
  "ws_step (WsIdle, c) (ParentActor_connect sid) =
     Inr (WsConnecting, c\<lparr>sessionId := Some sid, reconnectionAttempts := 0\<rparr>,
          [InvokeSocketConnector (Some sid)])"
| "ws_step (WsConnecting, c) (SocketConnector_done sock data) =
     Inr (WsConnected, c\<lparr>socket := Some sock\<rparr>,
          [SendParent WebSocket_connected, EmitNotification ''success'' ''Connected to the server'',
           InvokeSocketListener sock])"
| "ws_step (WsConnecting, c) SocketConnector_error =
     (case reconnecting c of (s1, c1, out) \<Rightarrow>
        Inr (s1, c1, EmitNotification ''error'' ''Failed to connect to the server'' # out))"
| "ws_step (WsConnected, c) (ParentActor_sendMessage data) =
     (case sendMessage c data of Inl e \<Rightarrow> Inl e | Inr out \<Rightarrow> Inr (WsConnected, c, out))"
| "ws_step (WsConnected, c) (SocketListener_messageReceived data) =
     Inr (WsConnected, c, [SendParent (WebSocket_messageReceived data)])"
| "ws_step (WsConnected, c) SocketListener_disconnected = Inr (reconnecting c)"
| "ws_step (WsConnected, c) ParentActor_disconnect = Inr (disconnecting c)"
| "ws_step (s, c) e = Inr (s, c, [])"

fun ws_run :: "ws_state \<times> ws_context \<Rightarrow> ws_event list \<Rightarrow> js_error + (ws_state \<times> ws_context \<times> ws_effect list)" where
  "ws_run (s, c) [] = Inr (s, c, [])"
| "ws_run (s, c) (e # es) =
     (case ws_step (s, c) e of Inl err \<Rightarrow> Inl err
      | Inr (s1, c1, out1) \<Rightarrow>
          (case ws_run (s1, c1) es of Inl err \<Rightarrow> Inl err
           | Inr (s2, c2, out2) \<Rightarrow> Inr (s2, c2, out1 @ out2)))"

text \<open>
  What holds of every state the machine reaches: the counter is 0 outside \<open>idle\<close> and at
  most 1 in \<open>idle\<close>.
\<close>

definition ws_inv :: "ws_state \<times> ws_context \<Rightarrow> bool" where
  "ws_inv sc \<longleftrightarrow> (case sc of (s, c) \<Rightarrow> (s = WsIdle \<and> reconnectionAttempts c \<le> 1) \<or> (s \<noteq> WsIdle \<and> reconnectionAttempts c = 0))"

subsection \<open>Response messages at the JSON boundary (types/chatTypes.ts)\<close>

text \<open>
  \<open>responseMessageFromJson\<close>, statement by statement, on the object \<open>camelCaseData\<close>. The
  inner \<open>try\<close> turns a failure of \<open>JSON.parse\<close> into the error \<open>Invalid message format\<close>;
  the outer \<open>catch\<close> turns every error into \<open>Invalid response data\<close>. Only an object
  has the properties \<open>message\<close> and \<open>response\<close> that the third statement reads.
\<close>

definition parse_message_field :: "platform \<Rightarrow> fields \<Rightarrow> js_error + fields" where
  "parse_message_field pf camelCaseData =
     (case obj_get ''message'' camelCaseData of
        JStr s \<Rightarrow>
          (case JSON_parse pf s of
             None \<Rightarrow> Inl (Error ''Invalid message format'')
           | Some v \<Rightarrow> Inr (obj_set ''message'' v camelCaseData))
      | _ \<Rightarrow> Inr camelCaseData)"

definition map_response_to_message :: "fields \<Rightarrow> fields" where
  "map_response_to_message camelCaseData =
     (case obj_get ''message'' camelCaseData of
        JObj m \<Rightarrow>
          (if obj_get ''message'' m = JUndefined \<and> obj_get ''response'' m \<noteq> JUndefined
           then obj_set ''message''
                  (JObj (obj_delete ''response'' (obj_set ''message'' (obj_get ''response'' m) m)))
                  camelCaseData
           else camelCaseData)
      | _ \<Rightarrow> camelCaseData)"

definition convert_id :: "fields \<Rightarrow> fields" where
  "convert_id camelCaseData =
     (if obj_has ''id'' camelCaseData \<and> \<not> obj_has ''messageId'' camelCaseData
      then obj_delete ''id'' (obj_set ''messageId'' (obj_get ''id'' camelCaseData) camelCaseData)
      else camelCaseData)"

definition default_isUserMessage :: "fields \<Rightarrow> fields" where
  "default_isUserMessage camelCaseData =
     (if obj_get ''isUserMessage'' camelCaseData = JUndefined
      then obj_set ''isUserMessage'' (JBool False) camelCaseData
      else camelCaseData)"

definition normalize_response :: "platform \<Rightarrow> fields \<Rightarrow> js_error + fields" where
  "normalize_response pf json =
     (case parse_message_field pf (transformKeys json SnakeToCamel) of
        Inl e \<Rightarrow> Inl e
      | Inr d1 \<Rightarrow>
          (let d2 = obj_set ''message'' (deepCamelCase (obj_get ''message'' d1)) d1;
               d3 = map_response_to_message d2;
               d4 = convert_id d3;
               d5 = default_isUserMessage d4
           in Inr d5))"

definition responseMessageFromJson :: "platform \<Rightarrow> fields \<Rightarrow> js_error + jsval" where
  "responseMessageFromJson pf json =
     (case normalize_response pf json of
        Inl e \<Rightarrow> Inl (Error ''Invalid response data'')
      | Inr camelCaseData \<Rightarrow>
          (case ResponseMessageSchema pf (JObj camelCaseData) of
             Inl e \<Rightarrow> Inl (Error ''Invalid response data'')
           | Inr r \<Rightarrow> Inr r))"

text \<open>
  The normalisation as the specification words it, one field at a time. \<open>d0\<close> is the input
  with camelCase keys; the \<open>message\<close> field is JSON-parsed if it is a string and has
  camelCase keys throughout.
\<close>

definition message_before_rename_spec :: "platform \<Rightarrow> fields \<Rightarrow> jsval" where
  "message_before_rename_spec pf d0 =
     deepCamelCase
       (case obj_get ''message'' d0 of
          JStr s \<Rightarrow> (case JSON_parse pf s of Some v \<Rightarrow> v | None \<Rightarrow> JUndefined)
        | v \<Rightarrow> v)"

text \<open>
  Inside the message object, \<open>response\<close> is renamed to \<open>message\<close> exactly when \<open>message\<close>
  is undefined (and there is a \<open>response\<close>); a value that is not an object is left as it
  is.
\<close>

definition message_renamed_spec :: "jsval \<Rightarrow> jsval \<Rightarrow> bool" where
  "message_renamed_spec before after \<longleftrightarrow>
     (case before of
        JObj m \<Rightarrow>
          (\<exists>m'. after = JObj m' \<and>
             (if obj_get ''message'' m = JUndefined \<and> obj_get ''response'' m \<noteq> JUndefined
              then obj_get ''message'' m' = obj_get ''response'' m \<and> \<not> obj_has ''response'' m' \<and>
                   (\<forall>k. k \<noteq> ''message'' \<and> k \<noteq> ''response'' \<longrightarrow> map_of m' k = map_of m k)
              else m' = m))
      | _ \<Rightarrow> after = before)"

definition normalized_spec :: "platform \<Rightarrow> fields \<Rightarrow> fields \<Rightarrow> bool" where
  "normalized_spec pf d0 n \<longleftrightarrow>
     message_renamed_spec (message_before_rename_spec pf d0) (obj_get ''message'' n) \<and>
     obj_get ''messageId'' n =
       (if obj_has ''messageId'' d0 then obj_get ''messageId'' d0 else obj_get ''id'' d0) \<and>
     map_of n ''id'' = (if obj_has ''messageId'' d0 then map_of d0 ''id'' else None) \<and>
     obj_get ''isUserMessage'' n =
       (if obj_get ''isUserMessage'' d0 = JUndefined then JBool False
        else obj_get ''isUserMessage'' d0) \<and>
     (\<forall>k. k \<notin> {''message'', ''messageId'', ''id'', ''isUserMessage''} \<longrightarrow>
          map_of n k = map_of d0 k)"

definition message_unparsable :: "platform \<Rightarrow> fields \<Rightarrow> bool" where
  "message_unparsable pf d0 \<longleftrightarrow>
     (case obj_get ''message'' d0 of JStr s \<Rightarrow> JSON_parse pf s = None | _ \<Rightarrow> False)"

subsection \<open>Chat state persistence (chatMachine)\<close>

definition ChatContextSchema :: "platform \<Rightarrow> zod" where
  "ChatContextSchema pf = z_object
     [(''sessionId'', z_string),
      (''webSocketRef'', z_any),
      (''chatHistory'', z_array (ChatHistoryItemSchema pf)),
      (''model'', ModelSchema),
      (''architecture'', ArchitectureSchema),
      (''historyManagement'', HistoryManagementSchema)]"



definition deserializeChatState :: "platform \<Rightarrow> jsval \<Rightarrow> js_error + fields" where
  "deserializeChatState pf savedState =
     (case ChatContextSchema pf savedState of
        Inl e \<Rightarrow> Inl e
      | Inr (JObj parsedState) \<Rightarrow> Inr (obj_set ''webSocketRef'' JUndefined parsedState)
      | Inr _ \<Rightarrow> Inl TypeError)"

subsection \<open>Application state (appMachine)\<close>

text \<open>
  Reading a property of a value throws a TypeError on \<open>undefined\<close> and \<open>null\<close>; of the
  properties the code reads by name, only an object has any. Spreading a value into an
  object literal copies the properties of an object; the other values the code spreads
  (\<open>undefined\<close>, \<open>null\<close>, primitives) contribute none. \<open>truthy\<close> is the condition of \<open>?:\<close>
  and \<open>||\<close>.
\<close>

definition read_prop :: "string \<Rightarrow> jsval \<Rightarrow> js_error + jsval" where
  "read_prop k v =
     (case v of
        JUndefined \<Rightarrow> Inl TypeError
      | JNull \<Rightarrow> Inl TypeError
      | JObj fs \<Rightarrow> Inr (obj_get k fs)
      | _ \<Rightarrow> Inr JUndefined)"

definition spread :: "jsval \<Rightarrow> fields" where
  "spread v = (case v of JObj fs \<Rightarrow> fs | _ \<Rightarrow> [])"

fun truthy :: "jsval \<Rightarrow> bool" where
  "truthy JUndefined = False"
| "truthy JNull = False"
| "truthy (JBool b) = b"
| "truthy (JNum n) = (n \<noteq> 0)"
| "truthy (JStr s) = (s \<noteq> [])"
| "truthy v = True"

definition and_then :: "js_error + 'a \<Rightarrow> ('a \<Rightarrow> js_error + 'b) \<Rightarrow> js_error + 'b" where
  "and_then r f = (case r of Inl e \<Rightarrow> Inl e | Inr x \<Rightarrow> f x)"

fun is_actor :: "jsval \<Rightarrow> bool" where
  "is_actor (JActor machine options) = True"
| "is_actor v = False"

text \<open>
  \<open>spawn\<close> is handed to the deserialisers by the machine: given a machine and the spawn
  options it returns a reference to the new actor, or throws what the machine's context
  function throws on the input.
\<close>

type_synonym spawner = "string \<Rightarrow> fields \<Rightarrow> js_error + jsval"

definition spawn_actor :: spawner where
  "spawn_actor machine options = Inr (JActor machine (JObj options))"

text \<open>The test result schemas (types/testTypes.ts).\<close>

definition AccuracyTestResultSchema :: "platform \<Rightarrow> zod" where
  "AccuracyTestResultSchema pf = z_object
     [(''response'', ResponseMessageSchema pf), (''productAccuracy'', z_number)]"

definition ConsistencyTestResultSchema :: "platform \<Rightarrow> zod" where
  "ConsistencyTestResultSchema pf = z_object
     [(''mainPromptResponse'', ResponseMessageSchema pf),
      (''variationResponses'', z_array (ResponseMessageSchema pf)),
      (''productConsistency'', z_number), (''orderConsistency'', z_number)]"

definition FeatureInferenceTestResultSchema :: "platform \<Rightarrow> zod" where
  "FeatureInferenceTestResultSchema pf = z_object
     [(''response'', ResponseMessageSchema pf), (''filterAccuracy'', z_number),
      (''extractedFilters'', z_record z_any), (''expectedFilters'', z_record z_any)]"

definition ContextRetentionTestResultSchema :: "platform \<Rightarrow> zod" where
  "ContextRetentionTestResultSchema pf = z_object
     [(''conversation'', z_array (ResponseMessageSchema pf)), (''contextAccuracy'', z_number),
      (''filterProgression'', z_array (z_record z_any))]"

definition RobustnessTestResultSchema :: "platform \<Rightarrow> zod" where
  "RobustnessTestResultSchema pf = z_object
     [(''response'', ResponseMessageSchema pf), (''filterAccuracy'', z_number),
      (''noiseFiltering'', z_number), (''extractedFilters'', z_record z_any)]"

definition ConversationalFlowTestResultSchema :: "platform \<Rightarrow> zod" where
  "ConversationalFlowTestResultSchema pf = z_object
     [(''conversation'', z_array (ResponseMessageSchema pf)), (''flowCoherence'', z_number),
      (''topicTransitionAccuracy'', z_number)]"

definition DefensibilityTestResultSchema :: "platform \<Rightarrow> zod" where
  "DefensibilityTestResultSchema pf = z_object
     [(''conversation'', z_array (ResponseMessageSchema pf)), (''boundaryMaintenance'', z_number),
      (''appropriateResponse'', z_boolean)]"

text \<open>\<open>deserializeTestRunnerState\<close> and \<open>deserializeTestState\<close> (testMachine).\<close>

definition parse_testResults :: "zod \<Rightarrow> jsval \<Rightarrow> js_error + jsval" where
  "parse_testResults schema saved =
     (if truthy saved then z_array schema saved else Inr (JArr []))"

definition or_else :: "jsval \<Rightarrow> jsval \<Rightarrow> jsval" where
  "or_else v d = (if truthy v then v else d)"

definition deserializeTestRunnerState :: "platform \<Rightarrow> jsval \<Rightarrow> jsval \<Rightarrow> js_error + fields" where
  "deserializeTestRunnerState pf savedState testType =
     (case savedState of
        JUndefined \<Rightarrow> Inl TypeError
      | JNull \<Rightarrow> Inl TypeError
      | _ \<Rightarrow>
         (let get = (\<lambda>k. obj_get k (spread savedState));
              baseState =
                [(''webSocketRef'', JUndefined), (''name'', get ''name''),
                 (''sessionId'', get ''sessionId''), (''testCases'', get ''testCases''),
                 (''currentTestIndex'', get ''currentTestIndex''), (''progress'', get ''progress''),
                 (''model'', get ''model''), (''architecture'', get ''architecture''),
                 (''historyManagement'', get ''historyManagement'')];
              results = (\<lambda>schema rest.
                 and_then (parse_testResults schema (get ''testResults''))
                   (\<lambda>rs. Inr (obj_assign baseState ((''testResults'', rs) # rest))))
          in if testType = JStr ''accuracy'' then results (AccuracyTestResultSchema pf) []
             else if testType = JStr ''consistency'' then
               results (ConsistencyTestResultSchema pf)
                 [(''pendingResponses'', or_else (get ''pendingResponses'') (JNum 0)),
                  (''currentResponses'', or_else (get ''currentResponses'') (JArr []))]
             else if testType = JStr ''feature_inference'' then
               results (FeatureInferenceTestResultSchema pf) []
             else if testType = JStr ''context_retention'' then
               results (ContextRetentionTestResultSchema pf)
                 [(''conversation'', or_else (get ''conversation'') (JArr []))]
             else if testType = JStr ''robustness'' then
               results (RobustnessTestResultSchema pf) []
             else if testType = JStr ''conversational_flow'' then
               results (ConversationalFlowTestResultSchema pf)
                 [(''conversation'', or_else (get ''conversation'') (JArr []))]
             else if testType = JStr ''defensibility'' then
               results (DefensibilityTestResultSchema pf)
                 [(''conversation'', or_else (get ''conversation'') (JArr []))]
             else Inl (ErrorAbout ''Unknown test type: '' testType)))"

definition testRunnerMachine_of :: "jsval \<Rightarrow> js_error + string" where
  "testRunnerMachine_of testType =
     (if testType = JStr ''accuracy'' then Inr ''accuracyTestRunnerMachine''
      else if testType = JStr ''consistency'' then Inr ''consistencyTestRunnerMachine''
      else if testType = JStr ''feature_inference'' then Inr ''featureInferenceTestRunnerMachine''
      else if testType = JStr ''context_retention'' then Inr ''contextRetentionTestRunnerMachine''
      else if testType = JStr ''robustness'' then Inr ''robustnessTestRunnerMachine''
      else if testType = JStr ''conversational_flow'' then Inr ''conversationalFlowTestRunnerMachine''
      else if testType = JStr ''defensibility'' then Inr ''defensibilityTestRunnerMachine''
      else Inl (ErrorAbout ''Unknown test type: '' testType))"

definition deserializeTest :: "platform \<Rightarrow> spawner \<Rightarrow> jsval \<Rightarrow> js_error + jsval" where
  "deserializeTest pf spawn test =
     and_then (read_prop ''testType'' test) (\<lambda>testType.
     and_then (testRunnerMachine_of testType) (\<lambda>testRunnerMachine.
     and_then (deserializeTestRunnerState pf (obj_get ''testRunnerState'' (spread test)) testType) (\<lambda>input.
     and_then (spawn testRunnerMachine [(''id'', obj_get ''testId'' (spread test)), (''input'', JObj input)])
       (\<lambda>testRunnerRef. Inr (JObj (obj_set ''testRunnerRef'' testRunnerRef (spread test)))))))"

fun map_tests :: "(jsval \<Rightarrow> js_error + jsval) \<Rightarrow> jsval list \<Rightarrow> js_error + jsval list" where
  "map_tests f [] = Inr []"
| "map_tests f (x # xs) =
     (case f x of Inl e \<Rightarrow> Inl e
      | Inr y \<Rightarrow> (case map_tests f xs of Inl e \<Rightarrow> Inl e | Inr ys \<Rightarrow> Inr (y # ys)))"

definition deserializeTestState :: "platform \<Rightarrow> spawner \<Rightarrow> jsval \<Rightarrow> js_error + fields" where
  "deserializeTestState pf spawn savedState =
     and_then (read_prop ''tests'' savedState) (\<lambda>tests.
       case tests of
         JArr ts \<Rightarrow>
           and_then (map_tests (deserializeTest pf spawn) ts)
             (\<lambda>ts'. Inr (obj_set ''tests'' (JArr ts') (spread savedState)))
       | _ \<Rightarrow> Inl TypeError)"

text \<open>\<open>ProductMachineContextSchema\<close> and \<open>deserializeProductState\<close> (productMachine).\<close>

definition ProductMachineContextSchema :: zod where
  "ProductMachineContextSchema = z_object
     [(''product'', z_optional ProductSchema),
      (''products'', z_array ProductSchema),
      (''currentPage'', z_number),
      (''totalProducts'', z_number),
      (''filter'', z_optional (z_record z_string))]"

definition deserializeProductState :: "jsval \<Rightarrow> js_error + fields" where
  "deserializeProductState savedState =
     (case ProductMachineContextSchema savedState of
        Inl e \<Rightarrow> Inl e
      | Inr (JObj parsedState) \<Rightarrow> Inr (obj_set ''product'' JUndefined parsedState)
      | Inr _ \<Rightarrow> Inl TypeError)"

text \<open>
  \<open>deserializeAppState\<close>: the version check comes first; the object literal is then
  evaluated left to right, and the first error thrown ends it.
\<close>

definition APP_STATE_VERSION :: string where
  "APP_STATE_VERSION = ''1.1''"

definition deserializeAppState :: "platform \<Rightarrow> spawner \<Rightarrow> jsval \<Rightarrow> js_error + fields" where
  "deserializeAppState pf spawn savedState =
     and_then (read_prop ''version'' savedState) (\<lambda>version.
       if version \<noteq> JStr APP_STATE_VERSION
       then Inl (ErrorAbout ''Unsupported state version. Expected 1.1, got '' version)
       else
         (let get = (\<lambda>k. obj_get k (spread savedState))
          in and_then (deserializeChatState pf (get ''chatState'')) (\<lambda>chatInput.
             and_then (spawn ''chatMachine'' [(''input'', JObj chatInput)]) (\<lambda>chatRef.
             and_then (deserializeTestState pf spawn (get ''testState'')) (\<lambda>testInput.
             and_then (spawn ''testMachine'' [(''input'', JObj testInput)]) (\<lambda>testRef.
             and_then (deserializeProductState (get ''productState'')) (\<lambda>prodInput.
             and_then (spawn ''productMachine'' [(''input'', JObj prodInput)]) (\<lambda>prodRef.
               Inr (obj_assign (spread (get ''appState''))
                      [(''chatRef'', chatRef), (''testRef'', testRef), (''prodRef'', prodRef)])))))))))"

text \<open>
  \<open>importStateFromFile\<close> and the \<open>importState\<close> actor. A file is the text the reader
  delivers, or \<open>None\<close> when reading it fails.
\<close>

definition importStateFromFile :: "platform \<Rightarrow> string option \<Rightarrow> js_error + jsval" where
  "importStateFromFile pf file =
     (case file of
        None \<Rightarrow> Inl (Error ''Error reading file'')
      | Some text \<Rightarrow>
          (case JSON_parse pf text of
             None \<Rightarrow> Inl (Error ''Invalid state file format'')
           | Some state \<Rightarrow> Inr state))"

definition importState :: "platform \<Rightarrow> string option \<Rightarrow> js_error + jsval" where
  "importState pf file =
     (case importStateFromFile pf file of
        Inl e \<Rightarrow> Inl (ErrorFrom ''Failed to import state: '' e)
      | Inr state \<Rightarrow> Inr state)"

text \<open>
  The machine. Its state value is a child of \<open>open\<close> or one of the form states; the deep
  history of \<open>open\<close> is the child of \<open>open\<close> that was active last. The context is the
  object XState keeps: \<open>assign\<close> merges the assigned properties into it.
\<close>

datatype open_state = Chatting | Testing | ManagingProducts

datatype app_value =
    Open open_state
  | ImportingState_displayingImportStateForm
  | ImportingState_importingState
  | ExportingState_displayingExportStateForm
  | ExportingState_exportingState
  | UpdatingSettings_displayingUpdateSettingForm

record app_snapshot =
  app_value :: app_value
  app_history :: open_state
  app_context :: fields

text \<open>
  The events of the machine, and the done and error events of the two invoked actors.
\<close>

datatype app_event =
    SysSaveState
  | UserSelectTest
  | UserSelectChat
  | UserSelectManageProducts
  | UserImportState
  | UserExportState
  | UserUpdateSetting
  | UserSubmitImportStateForm "string option"
  | UserSubmitExportStateForm string
  | UserSubmitResetSettings
  | UserSubmitUpdateSettingForm string string string
  | UserCancelImportState
  | UserCancelExportState
  | UserCancelUpdateSetting
  | ImportState_done jsval
  | ImportState_error js_error
  | ExportState_done
  | ExportState_error js_error

definition importState_outcome :: "platform \<Rightarrow> string option \<Rightarrow> app_event" where
  "importState_outcome pf file =
     (case importState pf file of Inl e \<Rightarrow> ImportState_error e | Inr output \<Rightarrow> ImportState_done output)"

text \<open>
  What a step does to the outside: it sends an event to an actor, emits a notification
  (type and message), stores the serialised state of the given context in localStorage,
  or starts one of the two invoked actors (\<open>exportState\<close> with the file name and the value
  whose state it serialises).
\<close>

datatype app_effect =
    SendTo jsval jsval
  | Notify string string
  | SaveAppState fields
  | InvokeImportState "string option"
  | InvokeExportState string jsval

definition simple_event :: "string \<Rightarrow> jsval" where
  "simple_event t = JObj [(''type'', JStr t)]"

definition app_updateState :: "jsval \<Rightarrow> jsval \<Rightarrow> jsval \<Rightarrow> jsval" where
  "app_updateState m a h =
     JObj [(''type'', JStr ''app.updateState''),
           (''data'', JObj [(''model'', m), (''architecture'', a), (''historyManagement'', h)])]"

fun open_entry :: "open_state \<Rightarrow> fields \<Rightarrow> app_effect" where
  "open_entry Chatting c = SendTo (obj_get ''chatRef'' c) (simple_event ''app.startChat'')"
| "open_entry Testing c = SendTo (obj_get ''testRef'' c) (simple_event ''app.startTest'')"
| "open_entry ManagingProducts c =
     SendTo (obj_get ''prodRef'' c) (simple_event ''app.startManagingProducts'')"

fun open_exit :: "open_state \<Rightarrow> fields \<Rightarrow> app_effect" where
  "open_exit Chatting c = SendTo (obj_get ''chatRef'' c) (simple_event ''app.stopChat'')"
| "open_exit Testing c = SendTo (obj_get ''testRef'' c) (simple_event ''app.stopTest'')"
| "open_exit ManagingProducts c =
     SendTo (obj_get ''prodRef'' c) (simple_event ''app.stopManagingProducts'')"

text \<open>
  A transition to \<open>#appActor.open.history\<close> with the given context and the effects of
  its actions: the remembered child of \<open>open\<close> is entered and its entry action runs.
\<close>

definition enter_open_history ::
  "app_snapshot \<Rightarrow> fields \<Rightarrow> app_effect list \<Rightarrow> js_error + (app_snapshot \<times> app_effect list)" where
  "enter_open_history s c out =
     Inr (s\<lparr>app_value := Open (app_history s), app_context := c\<rparr>,
          out @ [open_entry (app_history s) c])"

definition select_open ::
  "app_snapshot \<Rightarrow> open_state \<Rightarrow> open_state \<Rightarrow> js_error + (app_snapshot \<times> app_effect list)" where
  "select_open s current target =
     Inr (s\<lparr>app_value := Open target, app_history := target\<rparr>,
          [open_exit current (app_context s), open_entry target (app_context s)])"

definition leave_open ::
  "app_snapshot \<Rightarrow> open_state \<Rightarrow> app_value \<Rightarrow> js_error + (app_snapshot \<times> app_effect list)" where
  "leave_open s current target =
     Inr (s\<lparr>app_value := target, app_history := current\<rparr>, [open_exit current (app_context s)])"

text \<open>
  The second action of \<open>user.submitUpdateSettingForm\<close> and \<open>user.submitResetSettings\<close> calls
  \<open>send\<close> on \<open>context.chatRef\<close> and \<open>context.testRef\<close>; on a value that is not an actor
  reference the call throws a TypeError.
\<close>

definition send_update ::
  "fields \<Rightarrow> jsval \<Rightarrow> js_error + app_effect list" where
  "send_update c updateData =
     (if is_actor (obj_get ''chatRef'' c) \<and> is_actor (obj_get ''testRef'' c)
      then Inr [SendTo (obj_get ''chatRef'' c) updateData, SendTo (obj_get ''testRef'' c) updateData]
      else Inl TypeError)"

definition assign_settings :: "fields \<Rightarrow> jsval \<Rightarrow> jsval \<Rightarrow> jsval \<Rightarrow> fields" where
  "assign_settings c m a h =
     obj_assign c [(''model'', m), (''architecture'', a), (''historyManagement'', h)]"

text \<open>
  One event of the machine, state by state. An event with no transition in the current
  state is dropped.
  An action that throws stops the actor with that error (\<open>Inl\<close>): so does the \<open>assign\<close> of
  \<open>onDone\<close> in \<open>importingState\<close> when \<open>deserializeAppState\<close> throws, and the input function
  of the \<open>exportState\<close> invocation, which reads \<open>context.context\<close>.
\<close>

definition open_on ::
  "app_snapshot \<Rightarrow> open_state \<Rightarrow> app_event \<Rightarrow> js_error + (app_snapshot \<times> app_effect list)" where
  "open_on s cur e =
     (case e of
        SysSaveState \<Rightarrow> Inr (s, [SaveAppState (app_context s)])
      | UserImportState \<Rightarrow> leave_open s cur ImportingState_displayingImportStateForm
      | UserExportState \<Rightarrow> leave_open s cur ExportingState_displayingExportStateForm
      | UserUpdateSetting \<Rightarrow> leave_open s cur UpdatingSettings_displayingUpdateSettingForm
      | UserSelectTest \<Rightarrow> select_open s cur Testing
      | UserSelectChat \<Rightarrow> select_open s cur Chatting
      | UserSelectManageProducts \<Rightarrow> select_open s cur ManagingProducts
      | _ \<Rightarrow> Inr (s, []))"

definition displayingImportStateForm_on ::
  "app_snapshot \<Rightarrow> app_event \<Rightarrow> js_error + (app_snapshot \<times> app_effect list)" where
  "displayingImportStateForm_on s e =
     (case e of
        UserSubmitImportStateForm file \<Rightarrow>
          Inr (s\<lparr>app_value := ImportingState_importingState\<rparr>, [InvokeImportState file])
      | UserCancelImportState \<Rightarrow> enter_open_history s (app_context s) []
      | _ \<Rightarrow> Inr (s, []))"

definition importingState_on ::
  "platform \<Rightarrow> spawner \<Rightarrow> app_snapshot \<Rightarrow> app_event \<Rightarrow> js_error + (app_snapshot \<times> app_effect list)" where
  "importingState_on pf spawn s e =
     (case e of
        ImportState_done output \<Rightarrow>
          (case deserializeAppState pf spawn output of
             Inl err \<Rightarrow> Inl (ErrorFrom ''Invalid state file: '' err)
           | Inr state \<Rightarrow>
               enter_open_history s (obj_assign (app_context s) state)
                 [Notify ''success'' ''State imported successfully''])
      | ImportState_error err \<Rightarrow>
          Inr (s\<lparr>app_value := ImportingState_displayingImportStateForm\<rparr>,
               [Notify ''error'' ''Failed to import state''])
      | UserCancelImportState \<Rightarrow> enter_open_history s (app_context s) []
      | _ \<Rightarrow> Inr (s, []))"

definition displayingExportStateForm_on ::
  "app_snapshot \<Rightarrow> app_event \<Rightarrow> js_error + (app_snapshot \<times> app_effect list)" where
  "displayingExportStateForm_on s e =
     (case e of
        UserSubmitExportStateForm fileName \<Rightarrow>
          (case obj_get ''context'' (app_context s) of
             JUndefined \<Rightarrow> Inl TypeError
           | JNull \<Rightarrow> Inl TypeError
           | inner \<Rightarrow> Inr (s\<lparr>app_value := ExportingState_exportingState\<rparr>,
                           [InvokeExportState fileName inner]))
      | UserCancelExportState \<Rightarrow> enter_open_history s (app_context s) []
      | _ \<Rightarrow> Inr (s, []))"

definition exportingState_on ::
  "app_snapshot \<Rightarrow> app_event \<Rightarrow> js_error + (app_snapshot \<times> app_effect list)" where
  "exportingState_on s e =
     (case e of
        ExportState_done \<Rightarrow>
          enter_open_history s (app_context s) [Notify ''success'' ''State exported successfully'']
      | ExportState_error err \<Rightarrow>
          Inr (s\<lparr>app_value := ExportingState_displayingExportStateForm\<rparr>,
               [Notify ''error'' ''Failed to export state''])
      | UserCancelExportState \<Rightarrow> enter_open_history s (app_context s) []
      | _ \<Rightarrow> Inr (s, []))"

definition displayingUpdateSettingForm_on ::
  "app_snapshot \<Rightarrow> app_event \<Rightarrow> js_error + (app_snapshot \<times> app_effect list)" where
  "displayingUpdateSettingForm_on s e =
     (case e of
        UserSubmitUpdateSettingForm m a h \<Rightarrow>
          (let c = assign_settings (app_context s) (JStr m) (JStr a) (JStr h)
           in case send_update c
                     (app_updateState (obj_get ''model'' c) (obj_get ''architecture'' c)
                        (obj_get ''historyManagement'' c)) of
                Inl err \<Rightarrow> Inl err
              | Inr out \<Rightarrow> enter_open_history s c out)
      | UserSubmitResetSettings \<Rightarrow>
          (let c = assign_settings (app_context s) (JStr ''gpt-4o'') (JStr ''dynamic-agent'')
                     (JStr ''keep-last-5'')
           in case send_update c
                     (app_updateState (JStr ''gpt-4o'') (JStr ''dynamic-agent'')
                        (JStr ''keep-last-5'')) of
                Inl err \<Rightarrow> Inl err
              | Inr out \<Rightarrow> enter_open_history s c out)
      | UserCancelUpdateSetting \<Rightarrow> enter_open_history s (app_context s) []
      | _ \<Rightarrow> Inr (s, []))"

definition appMachine_step ::
  "platform \<Rightarrow> spawner \<Rightarrow> app_snapshot \<Rightarrow> app_event \<Rightarrow> js_error + (app_snapshot \<times> app_effect list)" where
  "appMachine_step pf spawn s e =
     (case app_value s of
        Open cur \<Rightarrow> open_on s cur e
      | ImportingState_displayingImportStateForm \<Rightarrow> displayingImportStateForm_on s e
      | ImportingState_importingState \<Rightarrow> importingState_on pf spawn s e
      | ExportingState_displayingExportStateForm \<Rightarrow> displayingExportStateForm_on s e
      | ExportingState_exportingState \<Rightarrow> exportingState_on s e
      | UpdatingSettings_displayingUpdateSettingForm \<Rightarrow> displayingUpdateSettingForm_on s e)"

text \<open>
  Submitting the import form and then receiving the outcome of the \<open>importState\<close> actor
  for the submitted file.
\<close>

definition submit_import ::
  "platform \<Rightarrow> spawner \<Rightarrow> app_snapshot \<Rightarrow> string option \<Rightarrow> js_error + (app_snapshot \<times> app_effect list)" where
  "submit_import pf spawn s file =
     (case appMachine_step pf spawn s (UserSubmitImportStateForm file) of
        Inl e \<Rightarrow> Inl e
      | Inr (s1, out1) \<Rightarrow>
          (case appMachine_step pf spawn s1 (importState_outcome pf file) of
             Inl e \<Rightarrow> Inl e
           | Inr (s2, out2) \<Rightarrow> Inr (s2, out1 @ out2)))"


subsection \<open>Example data\<close>

text \<open>
  A host for the examples: \<open>JSON.parse\<close> and the date parser on the texts the examples use
  (every other text is taken as unparsable).
\<close>

definition example_platform :: platform where
  \<open>example_platform =
     \<lparr>JSON_parse = map_of
        [(''{"version":"1.0"}'', JObj [(''version'', JStr ''1.0'')]),
         (''{"type":"text","response":"hi"}'',
            JObj [(''type'', JStr ''text''), (''response'', JStr ''hi'')])],
      Date_parse = map_of [(''2024-01-01T00:00:00.000Z'', 1704067200000)]\<rparr>\<close>

definition version_1_0_file :: "string option" where
  \<open>version_1_0_file = Some ''{"version":"1.0"}''\<close>

definition example_response :: fields where
  "example_response =
     [(''messageId'', JStr ''m1''), (''sessionId'', JStr ''s1''),
      (''message'', JObj [(''type'', JStr ''text''), (''message'', JStr ''hi'')]),
      (''isComplete'', JBool True), (''model'', JStr ''gpt-4o''),
      (''architectureChoice'', JStr ''llm-router''),
      (''historyManagementChoice'', JStr ''keep-all''), (''isUserMessage'', JBool False),
      (''timestamp'', JStr ''2024-01-01T00:00:00.000Z'')]"


definition example_app_context :: fields where
  "example_app_context =
     [(''chatRef'', JActor ''chatMachine'' JUndefined), (''testRef'', JActor ''testMachine'' JUndefined),
      (''prodRef'', JActor ''productMachine'' JUndefined), (''model'', JStr ''gpt-4o''),
      (''architecture'', JStr ''dynamic-agent''), (''historyManagement'', JStr ''keep-last-5'')]"

definition example_raw_response :: fields where
  \<open>example_raw_response =
     [(''id'', JStr ''m1''), (''session_id'', JStr ''s1''),
      (''message'', JStr ''{"type":"text","response":"hi"}''),
      (''is_complete'', JBool True), (''model'', JStr ''gpt-4o''),
      (''architecture_choice'', JStr ''llm-router''),
      (''history_management_choice'', JStr ''keep-all''),
      (''timestamp'', JStr ''2024-01-01T00:00:00.000Z'')]\<close>

subsection \<open>Longest common subsequence (consistencyTestRunnerMachine)\<close>

text \<open>
  The reference: the length of a longest common subsequence by the usual recursion on
  the two lists.
\<close>

fun lcs_ref :: "'a list \<Rightarrow> 'a list \<Rightarrow> nat" where
  "lcs_ref [] ys = 0"
| "lcs_ref (x # xs) [] = 0"
| "lcs_ref (x # xs) (y # ys) =
     (if x = y then Suc (lcs_ref xs ys)
      else max (lcs_ref xs (y # ys)) (lcs_ref (x # xs) ys))"

text \<open>
  \<open>longestCommonSubsequence\<close>: the table \<open>dp\<close> of \<open>(m + 1) \<times> (n + 1)\<close> zeros and the two
  nested \<open>for\<close> loops, \<open>i\<close> from 1 to \<open>m\<close> and \<open>j\<close> from 1 to \<open>n\<close>, each writing
  \<open>dp[i][j]\<close>. Every index the loops read or write is inside the table.
\<close>

definition dp_init :: "nat \<Rightarrow> nat \<Rightarrow> nat list list" where
  "dp_init m n = replicate (m + 1) (replicate (n + 1) 0)"

definition dp_cell :: "string list \<Rightarrow> string list \<Rightarrow> nat list list \<Rightarrow> nat \<Rightarrow> nat \<Rightarrow> nat" where
  "dp_cell arr1 arr2 dp i j =
     (if arr1 ! (i - 1) = arr2 ! (j - 1) then dp ! (i - 1) ! (j - 1) + 1
      else max (dp ! (i - 1) ! j) (dp ! i ! (j - 1)))"

function lcs_inner :: "string list \<Rightarrow> string list \<Rightarrow> nat \<Rightarrow> nat \<Rightarrow> nat list list \<Rightarrow> nat list list" where
  "lcs_inner arr1 arr2 i j dp =
     (if j \<le> length arr2
      then lcs_inner arr1 arr2 i (j + 1) (dp[i := (dp ! i)[j := dp_cell arr1 arr2 dp i j]])
      else dp)"
  by pat_completeness auto
termination
  by (relation "measure (\<lambda>(arr1, arr2, i, j, dp). Suc (length arr2) - j)") auto

function lcs_outer :: "string list \<Rightarrow> string list \<Rightarrow> nat \<Rightarrow> nat list list \<Rightarrow> nat list list" where
  "lcs_outer arr1 arr2 i dp =
     (if i \<le> length arr1
      then lcs_outer arr1 arr2 (i + 1) (lcs_inner arr1 arr2 i 1 dp)
      else dp)"
  by pat_completeness auto
termination
  by (relation "measure (\<lambda>(arr1, arr2, i, dp). Suc (length arr1) - i)") auto

definition longestCommonSubsequence :: "string list \<Rightarrow> string list \<Rightarrow> nat" where
  "longestCommonSubsequence arr1 arr2 =
     (let m = length arr1; n = length arr2
      in lcs_outer arr1 arr2 1 (dp_init m n) ! m ! n)"

section \<open>Objects and schemas\<close>


lemma z_shape_ok_iff:
  "succeeds (z_shape sh fs) \<longleftrightarrow> (\<forall>kp \<in> set sh. succeeds (snd kp (obj_get (fst kp) fs)))"
  by (induction sh) (auto split: sum.splits)

lemma z_object_ok_iff:
  "succeeds (z_object sh (JObj fs)) \<longleftrightarrow> (\<forall>kp \<in> set sh. succeeds (snd kp (obj_get (fst kp) fs)))"
  unfolding z_shape_ok_iff [symmetric] by (auto simp: z_object_def split: sum.splits)

lemma z_string_ok_iff: "succeeds (z_string v) \<longleftrightarrow> is_str v"
  by (cases v) (auto simp: z_string_def)

lemma z_items_string_ok_iff: "succeeds (z_items z_string xs) \<longleftrightarrow> list_all is_str xs"
proof (induction xs)
  case (Cons x xs)
  then show ?case using z_string_ok_iff [of x] by (auto split: sum.splits)
qed simp

lemma z_array_string_ok_iff: "succeeds (z_array z_string v) \<longleftrightarrow> is_str_array v"
proof (cases v)
  case (JArr xs)
  then show ?thesis using z_items_string_ok_iff [of xs] by (auto simp: z_array_def split: sum.splits)
qed (auto simp: z_array_def)

lemma map_of_obj_set: "map_of (obj_set k v fs) = (map_of fs)(k \<mapsto> v)"
  by (induction fs) auto

lemma obj_get_obj_set: "obj_get k (obj_set k' v fs) = (if k = k' then v else obj_get k fs)"
  by (simp add: obj_get_def map_of_obj_set)

lemma obj_has_obj_set: "obj_has k (obj_set k' v fs) \<longleftrightarrow> k = k' \<or> obj_has k fs"
  by (simp add: obj_has_def map_of_obj_set)

lemma z_string_id: "succeeds (z_string v) \<Longrightarrow> z_string v = Inr v"
  by (cases v) (auto simp: z_string_def)

lemma z_enum_id: "succeeds (z_enum vals v) \<Longrightarrow> z_enum vals v = Inr v"
  by (cases v) (auto simp: z_enum_def split: if_splits)

lemma z_string_defined: "succeeds (z_string v) \<Longrightarrow> v \<noteq> JUndefined"
  by (auto simp: z_string_def)

lemma z_enum_defined: "succeeds (z_enum vals v) \<Longrightarrow> v \<noteq> JUndefined"
  by (auto simp: z_enum_def)

lemma z_optional_string_id: "succeeds (z_optional z_string v) \<Longrightarrow> z_optional z_string v = Inr v"
  by (auto simp: z_optional_def z_string_id)

lemma z_shape_Cons_defined:
  "p (obj_get k fs) = Inr r \<Longrightarrow> r \<noteq> JUndefined \<Longrightarrow> z_shape sh fs = Inr rs
   \<Longrightarrow> z_shape ((k, p) # sh) fs = Inr ((k, r) # rs)"
  by simp

lemma z_shape_Cons_optional:
  "p (obj_get k fs) = Inr r \<Longrightarrow> z_shape sh fs = Inr rs
   \<Longrightarrow> z_shape ((k, p) # sh) fs = Inr (if r \<noteq> JUndefined \<or> obj_has k fs then (k, r) # rs else rs)"
  by simp

lemma map_of_obj_delete: "map_of (obj_delete k fs) = (map_of fs)(k := None)"
  by (induction fs) (auto simp: obj_delete_def)

lemma obj_get_obj_delete: "obj_get k (obj_delete k' fs) = (if k = k' then JUndefined else obj_get k fs)"
  by (simp add: obj_get_def map_of_obj_delete)

lemma obj_has_obj_delete: "obj_has k (obj_delete k' fs) \<longleftrightarrow> k \<noteq> k' \<and> obj_has k fs"
  by (simp add: obj_has_def map_of_obj_delete)



section \<open>Product parsing\<close>

lemma z_nullable_optional_ok_iff:
  "succeeds (z_nullable (z_optional p) v) \<longleftrightarrow> v = JUndefined \<or> v = JNull \<or> succeeds (p v)"
  by (auto simp: z_nullable_def z_optional_def)

lemma opt_string_ok_iff:
  "succeeds (z_nullable (z_optional z_string) v) \<longleftrightarrow> absent_or_null_or is_str v"
  by (simp add: z_nullable_optional_ok_iff z_string_ok_iff absent_or_null_or_def)

lemma opt_array_ok_iff:
  "succeeds (z_nullable (z_optional (z_array z_string)) v) \<longleftrightarrow> absent_or_null_or is_str_array v"
  by (simp add: z_nullable_optional_ok_iff z_array_string_ok_iff absent_or_null_or_def)

lemma ProductSchema_ok_iff:
  "succeeds (ProductSchema (JObj fs)) \<longleftrightarrow>
     (\<forall>k \<in> set product_required. is_str (obj_get k fs)) \<and>
     (\<forall>k \<in> set product_optional_strings. absent_or_null_or is_str (obj_get k fs)) \<and>
     (\<forall>k \<in> set product_optional_arrays. absent_or_null_or is_str_array (obj_get k fs))"
  unfolding ProductSchema_def z_object_ok_iff product_required_def product_optional_strings_def
    product_optional_arrays_def
  by (simp add: z_string_ok_iff opt_string_ok_iff opt_array_ok_iff) blast

text \<open>
  Claim C8, as stated, fails: a product object that supplies every required attribute but
  \<open>name\<close> is rejected.
\<close>

theorem productFromJson_without_name_fails:
  "productFromJson
     [(''product_id'', JStr ''p1''), (''manufacturer'', JStr ''Acme''), (''form_factor'', JStr ''COM'')]
   = Inl (Error ''Invalid product data'')"
  by code_simp

text \<open>
  Claim C8, amended. \<open>productFromJson\<close> succeeds on a JSON object exactly when, after the
  snake-case to camelCase key transformation, the four attributes \<open>productId\<close>, \<open>name\<close>,
  \<open>manufacturer\<close> and \<open>formFactor\<close> are strings and each of the eighteen other attributes
  is absent, null or of its declared type (a string, or an array of strings). So omitting
  any of the eighteen optional attributes never makes parsing fail; omitting one of the
  four required ones does.
\<close>

theorem productFromJson_succeeds_iff:
  "succeeds (productFromJson productJson) \<longleftrightarrow>
     (\<forall>k \<in> set product_required.
        is_str (obj_get k (transformKeys productJson SnakeToCamel))) \<and>
     (\<forall>k \<in> set product_optional_strings.
        absent_or_null_or is_str (obj_get k (transformKeys productJson SnakeToCamel))) \<and>
     (\<forall>k \<in> set product_optional_arrays.
        absent_or_null_or is_str_array (obj_get k (transformKeys productJson SnakeToCamel)))"
  unfolding ProductSchema_ok_iff [symmetric]
  by (auto simp: productFromJson_def Let_def split: sum.splits)

theorem productFromJson_succeeds_iff_witness:
  "succeeds (productFromJson
     [(''product_id'', JStr ''p1''), (''name'', JStr ''Board''), (''manufacturer'', JStr ''Acme''),
      (''form_factor'', JStr ''COM''), (''wireless'', JArr [JStr ''wifi'']), (''price'', JNull)])"
  unfolding productFromJson_succeeds_iff
  by (simp add: transformKeys_def rekey_def is_lower_def to_upper_def lower_case_letters_def
      upper_case_letters_def obj_get_def product_required_def product_optional_strings_def
      product_optional_arrays_def absent_or_null_or_def)

section \<open>Response normalisation\<close>

lemma map_response_to_message_other:
  "k \<noteq> ''message'' \<Longrightarrow> map_of (map_response_to_message d) k = map_of d k"
  by (auto simp: map_response_to_message_def map_of_obj_set split: jsval.splits)

lemma map_response_to_message_renamed:
  "message_renamed_spec (obj_get ''message'' d) (obj_get ''message'' (map_response_to_message d))"
proof (cases "obj_get ''message'' d")
  case (JObj m)
  then show ?thesis
    by (simp add: message_renamed_spec_def map_response_to_message_def obj_get_obj_set
        obj_get_obj_delete obj_has_obj_delete map_of_obj_delete map_of_obj_set)
qed (simp_all add: message_renamed_spec_def map_response_to_message_def)

lemma convert_id_map:
  "map_of (convert_id d) k =
     (if obj_has ''id'' d \<and> \<not> obj_has ''messageId'' d
      then (if k = ''id'' then None else if k = ''messageId'' then Some (obj_get ''id'' d) else map_of d k)
      else map_of d k)"
  by (simp add: convert_id_def map_of_obj_delete map_of_obj_set)

lemma default_isUserMessage_map:
  "map_of (default_isUserMessage d) k =
     (if obj_get ''isUserMessage'' d = JUndefined \<and> k = ''isUserMessage'' then Some (JBool False)
      else map_of d k)"
  by (simp add: default_isUserMessage_def map_of_obj_set)

lemma parse_message_field_other:
  "parse_message_field pf d0 = Inr d1 \<Longrightarrow> k \<noteq> ''message'' \<Longrightarrow> map_of d1 k = map_of d0 k"
  by (auto simp: parse_message_field_def map_of_obj_set split: jsval.splits option.splits)

lemma parse_message_field_message:
  "parse_message_field pf d0 = Inr d1 \<Longrightarrow>
   deepCamelCase (obj_get ''message'' d1) = message_before_rename_spec pf d0"
  by (auto simp: parse_message_field_def message_before_rename_spec_def obj_get_obj_set
      split: jsval.splits option.splits)

lemma parse_message_field_fails_iff:
  "(\<exists>e. parse_message_field pf d0 = Inl e) \<longleftrightarrow> message_unparsable pf d0"
  by (auto simp: parse_message_field_def message_unparsable_def split: jsval.splits option.splits)

lemma normalize_response_fails:
  "message_unparsable pf (transformKeys json SnakeToCamel) \<Longrightarrow> \<exists>e. normalize_response pf json = Inl e"
  using parse_message_field_fails_iff [of pf "transformKeys json SnakeToCamel"]
  by (auto simp: normalize_response_def)

lemma normalize_response_spec:
  assumes "\<not> message_unparsable pf (transformKeys json SnakeToCamel)"
  shows "\<exists>n. normalize_response pf json = Inr n \<and> normalized_spec pf (transformKeys json SnakeToCamel) n"
proof -
  let ?d0 = "transformKeys json SnakeToCamel"
  obtain d1 where d1: "parse_message_field pf ?d0 = Inr d1"
    using assms parse_message_field_fails_iff [of pf ?d0]
    by (cases "parse_message_field pf ?d0") auto
  define d2 where "d2 = obj_set ''message'' (deepCamelCase (obj_get ''message'' d1)) d1"
  define d3 where "d3 = map_response_to_message d2"
  define d4 where "d4 = convert_id d3"
  define d5 where "d5 = default_isUserMessage d4"
  have res: "normalize_response pf json = Inr d5"
    by (simp add: normalize_response_def d1 d2_def d3_def d4_def d5_def)
  have other1: "map_of d1 k = map_of ?d0 k" if "k \<noteq> ''message''" for k
    using parse_message_field_other [OF d1 that] .
  have other2: "map_of d2 k = map_of ?d0 k" if "k \<noteq> ''message''" for k
    using that other1 by (simp add: d2_def map_of_obj_set)
  have other3: "map_of d3 k = map_of ?d0 k" if "k \<noteq> ''message''" for k
    using that other2 by (simp add: d3_def map_response_to_message_other)
  have msg2: "obj_get ''message'' d2 = message_before_rename_spec pf ?d0"
    using parse_message_field_message [OF d1] by (simp add: d2_def obj_get_obj_set)
  have msg3: "message_renamed_spec (message_before_rename_spec pf ?d0) (obj_get ''message'' d3)"
    using map_response_to_message_renamed [of d2] by (simp add: d3_def msg2)
  have has3: "obj_has k d3 = obj_has k ?d0" "obj_get k d3 = obj_get k ?d0" if "k \<noteq> ''message''" for k
    using other3 [OF that] by (simp_all add: obj_has_def obj_get_def)
  have m5: "map_of d5 k =
      (if obj_get ''isUserMessage'' d4 = JUndefined \<and> k = ''isUserMessage'' then Some (JBool False)
       else map_of d4 k)" for k
    by (simp add: d5_def default_isUserMessage_map)
  have m4: "map_of d4 k =
     (if obj_has ''id'' ?d0 \<and> \<not> obj_has ''messageId'' ?d0
      then (if k = ''id'' then None else if k = ''messageId'' then Some (obj_get ''id'' ?d0) else map_of d3 k)
      else map_of d3 k)" for k
    by (simp add: d4_def convert_id_map has3)
  have iu4: "obj_get ''isUserMessage'' d4 = obj_get ''isUserMessage'' ?d0"
    using other3 [of "''isUserMessage''"] by (simp add: obj_get_def m4)
  have msg5: "obj_get ''message'' d5 = obj_get ''message'' d3"
    by (simp add: obj_get_def m5 m4)
  have c1: "message_renamed_spec (message_before_rename_spec pf ?d0) (obj_get ''message'' d5)"
    using msg3 by (simp add: msg5)
  have c2: "obj_get ''messageId'' d5 =
       (if obj_has ''messageId'' ?d0 then obj_get ''messageId'' ?d0 else obj_get ''id'' ?d0)"
    using other3 [of "''messageId''"]
    by (auto simp: obj_get_def obj_has_def m5 m4 split: option.splits)
  have c3: "map_of d5 ''id'' = (if obj_has ''messageId'' ?d0 then map_of ?d0 ''id'' else None)"
    using other3 [of "''id''"] by (auto simp: obj_has_def m5 m4)
  have c4: "obj_get ''isUserMessage'' d5 =
       (if obj_get ''isUserMessage'' ?d0 = JUndefined then JBool False
        else obj_get ''isUserMessage'' ?d0)"
    using other3 [of "''isUserMessage''"] by (simp add: obj_get_def m5 m4 iu4 [unfolded obj_get_def])
  have c5: "map_of d5 k = map_of ?d0 k"
    if "k \<notin> {''message'', ''messageId'', ''id'', ''isUserMessage''}" for k
    using that other3 [of k] by (simp add: m5 m4)
  have "normalized_spec pf ?d0 d5"
    unfolding normalized_spec_def using c1 c2 c3 c4 c5 by blast
  with res show ?thesis by blast
qed

lemma z_shape_Cons_cong:
  assumes "p (obj_get k a) = p (obj_get k b)"
    and "\<And>r. p (obj_get k a) = Inr r \<Longrightarrow>
           (r \<noteq> JUndefined \<or> obj_has k a) = (r \<noteq> JUndefined \<or> obj_has k b)"
    and "z_shape sh a = z_shape sh b"
  shows "z_shape ((k, p) # sh) a = z_shape ((k, p) # sh) b"
proof (cases "p (obj_get k a)")
  case (Inl e)
  then show ?thesis using assms(1) by simp
next
  case (Inr r)
  then have b: "p (obj_get k b) = Inr r" using assms(1) by simp
  have c: "(r \<noteq> JUndefined \<or> obj_has k a) = (r \<noteq> JUndefined \<or> obj_has k b)"
    using assms(2) [OF Inr] .
  show ?thesis
  proof (cases "r = JUndefined")
    case True
    with c have "obj_has k a = obj_has k b" by simp
    then show ?thesis by (simp add: Inr b assms(3) split: sum.splits)
  next
    case False
    then show ?thesis by (simp add: Inr b assms(3) split: sum.splits)
  qed
qed

lemma z_shape_map_of_cong:
  assumes "map_of a = map_of b"
  shows "z_shape sh a = z_shape sh b"
proof (induction sh)
  case Nil
  show ?case by simp
next
  case (Cons kp sh)
  obtain k p where kp: "kp = (k, p)" by (cases kp)
  have g: "obj_get k a = obj_get k b" "obj_has k a = obj_has k b"
    using assms by (simp_all add: obj_get_def obj_has_def)
  show ?case unfolding kp
    by (rule z_shape_Cons_cong) (simp_all add: g Cons.IH)
qed

lemma obj_get_defined: "obj_get k m = v \<Longrightarrow> v \<noteq> JUndefined \<Longrightarrow> map_of m k = Some v"
  by (auto simp: obj_get_def split: option.splits)

lemma message_renamed_spec_unique:
  assumes "message_renamed_spec before a1" and "message_renamed_spec before a2"
  shows "ResponseContentSchema a1 = ResponseContentSchema a2"
proof (cases before)
  case (JObj m)
  from assms obtain m1 m2 where a: "a1 = JObj m1" "a2 = JObj m2"
    by (auto simp: message_renamed_spec_def JObj)
  show ?thesis
  proof (cases "obj_get ''message'' m = JUndefined \<and> obj_get ''response'' m \<noteq> JUndefined")
    case True
    let ?v = "obj_get ''response'' m"
    have p1: "obj_get ''message'' m1 = ?v" "\<not> obj_has ''response'' m1"
      "\<And>k. k \<noteq> ''message'' \<Longrightarrow> k \<noteq> ''response'' \<Longrightarrow> map_of m1 k = map_of m k"
      using assms(1) True by (auto simp: message_renamed_spec_def JObj a)
    have p2: "obj_get ''message'' m2 = ?v" "\<not> obj_has ''response'' m2"
      "\<And>k. k \<noteq> ''message'' \<Longrightarrow> k \<noteq> ''response'' \<Longrightarrow> map_of m2 k = map_of m k"
      using assms(2) True by (auto simp: message_renamed_spec_def JObj a)
    have "map_of m1 k = map_of m2 k" for k
    proof (cases "k = ''message''")
      case k: True
      show ?thesis
        using obj_get_defined [OF p1(1)] obj_get_defined [OF p2(1)] True by (simp add: k)
    next
      case k: False
      show ?thesis
      proof (cases "k = ''response''")
        case True
        then show ?thesis using p1(2) p2(2) by (simp add: obj_has_def)
      next
        case False
        then show ?thesis using k p1(3) p2(3) by simp
      qed
    qed
    then have "map_of m1 = map_of m2" by (rule ext)
    then show ?thesis
      by (simp add: a ResponseContentSchema_def z_object_def z_shape_map_of_cong [of m1 m2]
          del: z_shape.simps)
  next
    case False
    then have "m1 = m" "m2 = m"
      using assms by (auto simp: message_renamed_spec_def JObj a)
    then show ?thesis by (simp add: a)
  qed
qed (use assms in \<open>simp_all add: message_renamed_spec_def\<close>)

lemma ResponseContentSchema_defined: "ResponseContentSchema v = Inr r \<Longrightarrow> r \<noteq> JUndefined"
  by (auto simp: ResponseContentSchema_def z_object_def split: jsval.splits sum.splits)

lemma z_string_result: "z_string v = Inr r \<Longrightarrow> r \<noteq> JUndefined"
  by (auto simp: z_string_def split: jsval.splits)

lemma z_literal_result: "z_literal (JBool b) v = Inr r \<Longrightarrow> r \<noteq> JUndefined"
  by (auto simp: z_literal_def split: if_splits)

lemma normalized_spec_unique:
  assumes n1: "normalized_spec pf d0 n1" and n2: "normalized_spec pf d0 n2"
  shows "ResponseMessageSchema pf (JObj n1) = ResponseMessageSchema pf (JObj n2)"
proof -
  have msg: "ResponseContentSchema (obj_get ''message'' n1) = ResponseContentSchema (obj_get ''message'' n2)"
  proof -
    have "message_renamed_spec (message_before_rename_spec pf d0) (obj_get ''message'' n1)"
      using n1 by (simp add: normalized_spec_def)
    moreover have "message_renamed_spec (message_before_rename_spec pf d0) (obj_get ''message'' n2)"
      using n2 by (simp add: normalized_spec_def)
    ultimately show ?thesis by (rule message_renamed_spec_unique)
  qed
  have mid: "obj_get ''messageId'' n1 = obj_get ''messageId'' n2"
    using n1 n2 by (simp add: normalized_spec_def)
  have ium: "obj_get ''isUserMessage'' n1 = obj_get ''isUserMessage'' n2"
    using n1 n2 by (simp add: normalized_spec_def)
  have other: "map_of n1 k = map_of n2 k"
    if "k \<notin> {''message'', ''messageId'', ''id'', ''isUserMessage''}" for k
    using n1 n2 that by (simp add: normalized_spec_def)
  have og: "obj_get k n1 = obj_get k n2" "obj_has k n1 = obj_has k n2"
    if "k \<notin> {''message'', ''messageId'', ''id'', ''isUserMessage''}" for k
    using other [OF that] by (simp_all add: obj_get_def obj_has_def)
  have "z_shape
     [(''messageId'', z_string), (''sessionId'', z_string), (''message'', ResponseContentSchema),
      (''isComplete'', z_boolean), (''model'', ModelSchema),
      (''architectureChoice'', ArchitectureSchema),
      (''historyManagementChoice'', HistoryManagementSchema),
      (''isUserMessage'', z_literal (JBool False)),
      (''timestamp'', z_transform (z_union [z_date, z_string]) (new_Date pf))] n1
    = z_shape
     [(''messageId'', z_string), (''sessionId'', z_string), (''message'', ResponseContentSchema),
      (''isComplete'', z_boolean), (''model'', ModelSchema),
      (''architectureChoice'', ArchitectureSchema),
      (''historyManagementChoice'', HistoryManagementSchema),
      (''isUserMessage'', z_literal (JBool False)),
      (''timestamp'', z_transform (z_union [z_date, z_string]) (new_Date pf))] n2"
  proof (intro z_shape_Cons_cong)
    show "z_string (obj_get ''messageId'' n1) = z_string (obj_get ''messageId'' n2)"
      by (simp add: mid)
    show "ResponseContentSchema (obj_get ''message'' n1) = ResponseContentSchema (obj_get ''message'' n2)"
      by (rule msg)
    show "z_literal (JBool False) (obj_get ''isUserMessage'' n1)
        = z_literal (JBool False) (obj_get ''isUserMessage'' n2)"
      by (simp add: ium)
    show "(r \<noteq> JUndefined \<or> obj_has ''messageId'' n1) = (r \<noteq> JUndefined \<or> obj_has ''messageId'' n2)"
      if "z_string (obj_get ''messageId'' n1) = Inr r" for r
      using z_string_result [OF that] by simp
    show "(r \<noteq> JUndefined \<or> obj_has ''message'' n1) = (r \<noteq> JUndefined \<or> obj_has ''message'' n2)"
      if "ResponseContentSchema (obj_get ''message'' n1) = Inr r" for r
      using ResponseContentSchema_defined [OF that] by simp
    show "(r \<noteq> JUndefined \<or> obj_has ''isUserMessage'' n1)
        = (r \<noteq> JUndefined \<or> obj_has ''isUserMessage'' n2)"
      if "z_literal (JBool False) (obj_get ''isUserMessage'' n1) = Inr r" for r
      using z_literal_result [OF that] by simp
  qed (simp_all add: og)
  then show ?thesis
    by (simp add: ResponseMessageSchema_def z_object_def del: z_shape.simps)
qed

text \<open>
  Claim C4. For every input object and every behaviour of \<open>JSON.parse\<close>: with \<open>d0\<close> the input
  with camelCase keys, \<open>responseMessageFromJson\<close> throws when the \<open>message\<close> field of \<open>d0\<close> is
  a string that is not valid JSON. Otherwise there is a normalised object, and for every
  object \<open>n\<close> that is normalised as the specification says, the function throws exactly
  when \<open>ResponseMessageSchema\<close> rejects \<open>n\<close> and returns the parsed value when it accepts.
  In \<open>n\<close>, the \<open>message\<close> field is the (JSON-parsed, if it was a string) message with
  camelCase keys throughout, in which \<open>response\<close> has been renamed to \<open>message\<close> exactly
  when \<open>message\<close> was undefined; \<open>messageId\<close> is that of \<open>d0\<close> if \<open>d0\<close> has one and
  otherwise its \<open>id\<close>, which is then removed; \<open>isUserMessage\<close> is \<open>false\<close> if it was
  undefined; every other field is that of \<open>d0\<close>.
\<close>

theorem responseMessageFromJson_normalization:
  "(message_unparsable pf (transformKeys json SnakeToCamel) \<longrightarrow>
      responseMessageFromJson pf json = Inl (Error ''Invalid response data'')) \<and>
   (\<not> message_unparsable pf (transformKeys json SnakeToCamel) \<longrightarrow>
      (\<exists>n. normalized_spec pf (transformKeys json SnakeToCamel) n) \<and>
      (\<forall>n. normalized_spec pf (transformKeys json SnakeToCamel) n \<longrightarrow>
           responseMessageFromJson pf json =
             (case ResponseMessageSchema pf (JObj n) of
                Inl e \<Rightarrow> Inl (Error ''Invalid response data'')
              | Inr r \<Rightarrow> Inr r)))"
proof (intro conjI impI allI)
  assume "message_unparsable pf (transformKeys json SnakeToCamel)"
  from normalize_response_fails [OF this]
  show "responseMessageFromJson pf json = Inl (Error ''Invalid response data'')"
    by (auto simp: responseMessageFromJson_def)
next
  assume "\<not> message_unparsable pf (transformKeys json SnakeToCamel)"
  from normalize_response_spec [OF this]
  show "\<exists>n. normalized_spec pf (transformKeys json SnakeToCamel) n" by blast
next
  fix n
  assume "\<not> message_unparsable pf (transformKeys json SnakeToCamel)"
    and n: "normalized_spec pf (transformKeys json SnakeToCamel) n"
  from normalize_response_spec [OF this(1)]
  obtain n0 where n0: "normalize_response pf json = Inr n0"
      "normalized_spec pf (transformKeys json SnakeToCamel) n0" by blast
  have "ResponseMessageSchema pf (JObj n0) = ResponseMessageSchema pf (JObj n)"
    using normalized_spec_unique [OF n0(2) n] .
  then show "responseMessageFromJson pf json =
             (case ResponseMessageSchema pf (JObj n) of
                Inl e \<Rightarrow> Inl (Error ''Invalid response data'')
              | Inr r \<Rightarrow> Inr r)"
    by (simp add: responseMessageFromJson_def n0(1))
qed

lemma example_response_parsed:
  "responseMessageFromJson example_platform example_raw_response
   = Inr (JObj
      [(''messageId'', JStr ''m1''), (''sessionId'', JStr ''s1''),
       (''message'', JObj [(''type'', JStr ''text''), (''message'', JStr ''hi'')]),
       (''isComplete'', JBool True), (''model'', JStr ''gpt-4o''),
       (''architectureChoice'', JStr ''llm-router''),
       (''historyManagementChoice'', JStr ''keep-all''), (''isUserMessage'', JBool False),
       (''timestamp'', JDate (Some 1704067200000))])"
  by code_simp

lemma example_message_before_rename:
  "message_before_rename_spec example_platform (transformKeys example_raw_response SnakeToCamel)
   = JObj [(''type'', JStr ''text''), (''response'', JStr ''hi'')]"
  by code_simp

lemma example_get:
  "obj_has ''messageId'' (transformKeys example_raw_response SnakeToCamel) = False"
  "obj_get ''id'' (transformKeys example_raw_response SnakeToCamel) = JStr ''m1''"
  "obj_get ''isUserMessage'' (transformKeys example_raw_response SnakeToCamel) = JUndefined"
  by code_simp+

lemma example_other:
  "k \<notin> {''message'', ''messageId'', ''id'', ''isUserMessage''} \<Longrightarrow>
   map_of example_response k = map_of (transformKeys example_raw_response SnakeToCamel) k"
  by (simp add: example_response_def example_raw_response_def transformKeys_def rekey_def
      is_lower_def to_upper_def lower_case_letters_def upper_case_letters_def)

lemma example_normalized:
  "normalized_spec example_platform (transformKeys example_raw_response SnakeToCamel) example_response"
  unfolding normalized_spec_def example_message_before_rename example_get
proof (intro conjI allI impI)
  show "message_renamed_spec (JObj [(''type'', JStr ''text''), (''response'', JStr ''hi'')])
     (obj_get ''message'' example_response)"
    by (simp add: message_renamed_spec_def example_response_def obj_get_def obj_has_def)
  show "obj_get ''messageId'' example_response = (if False then obj_get ''messageId'' (transformKeys example_raw_response SnakeToCamel) else JStr ''m1'')"
    by (simp add: example_response_def obj_get_def)
  show "map_of example_response ''id'' = (if False then map_of (transformKeys example_raw_response SnakeToCamel) ''id'' else None)"
    by (simp add: example_response_def)
  show "obj_get ''isUserMessage'' example_response = (if JUndefined = JUndefined then JBool False else JUndefined)"
    by (simp add: example_response_def obj_get_def)
  show "map_of example_response k = map_of (transformKeys example_raw_response SnakeToCamel) k"
    if "k \<notin> {''message'', ''messageId'', ''id'', ''isUserMessage''}" for k
    using example_other [OF that] .
qed

theorem responseMessageFromJson_normalization_witness:
  "responseMessageFromJson example_platform [(''message'', JStr ''not json'')]
     = Inl (Error ''Invalid response data'') \<and>
   responseMessageFromJson example_platform example_raw_response =
     (case ResponseMessageSchema example_platform (JObj example_response) of
        Inl e \<Rightarrow> Inl (Error ''Invalid response data'')
      | Inr r \<Rightarrow> Inr r)"
proof -
  have u1: "message_unparsable example_platform
      (transformKeys [(''message'', JStr ''not json'')] SnakeToCamel)"
    by code_simp
  have u2: "\<not> message_unparsable example_platform (transformKeys example_raw_response SnakeToCamel)"
    by code_simp
  show ?thesis
    using responseMessageFromJson_normalization [of example_platform "[(''message'', JStr ''not json'')]"]
      responseMessageFromJson_normalization [of example_platform example_raw_response] u1 u2
      example_normalized
    by blast
qed

section \<open>The web-socket actor\<close>

lemma reconnecting_cases:
  "reconnecting c =
     (if reconnectionAttempts c + 1 < 5
      then (WsIdle, c\<lparr>reconnectionAttempts := reconnectionAttempts c + 1\<rparr>,
            [EmitNotification ''error'' ''Failed to reconnect after multiple attempts''])
      else (WsConnecting, c\<lparr>reconnectionAttempts := reconnectionAttempts c + 1\<rparr>,
            [InvokeSocketConnector (sessionId c)]))"
  by (simp add: reconnecting_def canReconnect_def MAX_RECONNECTION_ATTEMPTS_def Let_def)

text \<open>
  Claim C1 does not hold of the code: the guarded \<open>always\<close> transition of \<open>reconnecting\<close>
  is the one that gives up. After \<open>parentActor.connect\<close> and a first failed connection the
  counter is 1, below the bound 5, and the machine emits the failure notification and is
  back in \<open>idle\<close>; it starts no second connection attempt.
\<close>

theorem webSocket_gives_up_below_bound:
  "ws_run (WsIdle, ws_initial_context) [ParentActor_connect ''s1'', SocketConnector_error]
   = Inr (WsIdle, \<lparr>socket = None, sessionId = Some ''s1'', reconnectionAttempts = 1\<rparr>,
          [InvokeSocketConnector (Some ''s1''),
           EmitNotification ''error'' ''Failed to connect to the server'',
           EmitNotification ''error'' ''Failed to reconnect after multiple attempts''])"
  by (simp add: ws_initial_context_def reconnecting_cases)

text \<open>
  The same happens when an established connection drops, and the branch that retries is
  taken only from the bound on (a context the machine itself never produces).
\<close>

lemma webSocket_drop_gives_up:
  "ws_run (WsIdle, ws_initial_context)
     [ParentActor_connect ''s1'', SocketConnector_done 7 JNull, SocketListener_disconnected]
   = Inr (WsIdle, \<lparr>socket = Some 7, sessionId = Some ''s1'', reconnectionAttempts = 1\<rparr>,
          [InvokeSocketConnector (Some ''s1''), SendParent WebSocket_connected,
           EmitNotification ''success'' ''Connected to the server'', InvokeSocketListener 7,
           EmitNotification ''error'' ''Failed to reconnect after multiple attempts''])"
  by (simp add: ws_initial_context_def reconnecting_cases)

lemma webSocket_retries_from_bound:
  "5 \<le> reconnectionAttempts c + 1 \<Longrightarrow>
   ws_step (WsConnecting, c) SocketConnector_error
   = Inr (WsConnecting, c\<lparr>reconnectionAttempts := reconnectionAttempts c + 1\<rparr>,
          [EmitNotification ''error'' ''Failed to connect to the server'',
           InvokeSocketConnector (sessionId c)])"
  by (simp add: reconnecting_cases)

text \<open>
  From the initial state on, the invariant holds after every step, and a step starts a
  connection attempt only on \<open>parentActor.connect\<close>: the machine never reconnects.
\<close>

lemma sendMessage_only_emits:
  "sendMessage c data = Inr out \<Longrightarrow> InvokeSocketConnector x \<notin> set out"
  by (auto simp: sendMessage_def Let_def split: sum.splits jsval.splits option.splits)

lemma ws_never_reconnects:
  assumes "ws_inv (s, c)" and "ws_step (s, c) e = Inr (s', c', out)"
  shows "ws_inv (s', c') \<and>
    (\<forall>x. InvokeSocketConnector x \<in> set out \<longrightarrow> (\<exists>sid. e = ParentActor_connect sid))"
  using assms
  by (cases s; cases e)
     (auto simp: ws_inv_def reconnecting_def canReconnect_def MAX_RECONNECTION_ATTEMPTS_def
        disconnecting_def Let_def dest: sendMessage_only_emits
        split: sum.splits option.splits if_splits)

lemma ws_inv_initial: "ws_inv (WsIdle, ws_initial_context)"
  by (simp add: ws_inv_def ws_initial_context_def)

lemma camel_keys:
  "camelToSnake ''type'' = ''type''"
  "camelToSnake ''sessionId'' = ''session_id''"
  "camelToSnake ''messageId'' = ''message_id''"
  "camelToSnake ''message'' = ''message''"
  "camelToSnake ''timestamp'' = ''timestamp''"
  "camelToSnake ''model'' = ''model''"
  "camelToSnake ''architectureChoice'' = ''architecture_choice''"
  "camelToSnake ''historyManagementChoice'' = ''history_management_choice''"
  by code_simp+

lemma request_to_json_without_timestamp:
  "requestDataToJson
     [(''type'', a), (''sessionId'', b), (''messageId'', c), (''message'', d),
      (''model'', e), (''architectureChoice'', f), (''historyManagementChoice'', g)]
   = [(''type'', a), (''session_id'', b), (''message_id'', c), (''message'', d),
      (''model'', e), (''architecture_choice'', f), (''history_management_choice'', g)]"
  by (simp add: requestDataToJson_def transformKeys_def rekey_def camel_keys del: camelToSnake.simps)

lemma request_to_json_with_timestamp:
  "requestDataToJson
     [(''type'', a), (''sessionId'', b), (''messageId'', c), (''message'', d), (''timestamp'', t),
      (''model'', e), (''architectureChoice'', f), (''historyManagementChoice'', g)]
   = [(''type'', a), (''session_id'', b), (''message_id'', c), (''message'', d), (''timestamp'', t),
      (''model'', e), (''architecture_choice'', f), (''history_management_choice'', g)]"
  by (simp add: requestDataToJson_def transformKeys_def rekey_def camel_keys del: camelToSnake.simps)

text \<open>
  Claim C3. In \<open>connected\<close>, with a stored session id and a socket, a
  \<open>parentActor.sendMessage\<close> event whose data satisfies \<open>RequestDataSchema\<close> makes the machine
  emit one \<open>text_message\<close> on the socket. Its payload, after the camelCase to snake-case key
  transformation, has the fields \<open>type\<close>, \<open>session_id\<close> and \<open>message_id\<close>; \<open>session_id\<close> is
  the session id stored in the context, whatever \<open>sessionId\<close> the event data carries, and
  \<open>type\<close> and \<open>message_id\<close> are those of the event data.
\<close>

theorem sendMessage_envelope:
  assumes sid: "sessionId c = Some sid" and sock: "socket c = Some sock"
    and ok: "succeeds (RequestDataSchema (JObj data))"
  shows "\<exists>payload.
     ws_step (WsConnected, c) (ParentActor_sendMessage data)
       = Inr (WsConnected, c, [SocketEmit sock ''text_message'' payload]) \<and>
     obj_has ''type'' payload \<and> obj_has ''session_id'' payload \<and> obj_has ''message_id'' payload \<and>
     obj_get ''session_id'' payload = JStr sid \<and>
     obj_get ''type'' payload = obj_get ''type'' data \<and>
     obj_get ''message_id'' payload = obj_get ''messageId'' data"
proof -
  let ?d = "obj_set ''sessionId'' (JStr sid) data"
  have all: "\<forall>kp \<in> set
     [(''type'', z_string), (''sessionId'', z_string), (''messageId'', z_string),
      (''message'', z_string), (''timestamp'', z_optional z_string), (''model'', ModelSchema),
      (''architectureChoice'', ArchitectureSchema),
      (''historyManagementChoice'', HistoryManagementSchema)].
        succeeds (snd kp (obj_get (fst kp) data))"
    using ok unfolding RequestDataSchema_def z_object_ok_iff .
  have s1: "succeeds (z_string (obj_get ''type'' data))"
    and s3: "succeeds (z_string (obj_get ''messageId'' data))"
    and s4: "succeeds (z_string (obj_get ''message'' data))"
    and s5: "succeeds (z_optional z_string (obj_get ''timestamp'' data))"
    and s6: "succeeds (z_enum MODEL_VALUES (obj_get ''model'' data))"
    and s7: "succeeds (z_enum ARCHITECTURE_VALUES (obj_get ''architectureChoice'' data))"
    and s8: "succeeds (z_enum HISTORY_MANAGEMENT_VALUES (obj_get ''historyManagementChoice'' data))"
    using all by (simp_all add: ModelSchema_def ArchitectureSchema_def HistoryManagementSchema_def)
  note f = z_string_id [OF s1] z_string_id [OF s3] z_string_id [OF s4] z_optional_string_id [OF s5]
    z_enum_id [OF s6] z_enum_id [OF s7] z_enum_id [OF s8]
  note n = z_string_defined [OF s1] z_string_defined [OF s3] z_string_defined [OF s4]
    z_enum_defined [OF s6] z_enum_defined [OF s7] z_enum_defined [OF s8]
  have f2: "z_string (JStr sid) = Inr (JStr sid)" by (simp add: z_string_def)
  let ?ts = "obj_get ''timestamp'' data"
  let ?tail = "[(''model'', obj_get ''model'' data),
      (''architectureChoice'', obj_get ''architectureChoice'' data),
      (''historyManagementChoice'', obj_get ''historyManagementChoice'' data)]"
  let ?head = "[(''type'', obj_get ''type'' data), (''sessionId'', JStr sid),
      (''messageId'', obj_get ''messageId'' data), (''message'', obj_get ''message'' data)]"
  define message where "message =
     ?head @ (if ?ts \<noteq> JUndefined \<or> obj_has ''timestamp'' data then [(''timestamp'', ?ts)] else []) @ ?tail"
  have g: "obj_get ''type'' ?d = obj_get ''type'' data" "obj_get ''sessionId'' ?d = JStr sid"
    "obj_get ''messageId'' ?d = obj_get ''messageId'' data"
    "obj_get ''message'' ?d = obj_get ''message'' data"
    "obj_get ''timestamp'' ?d = obj_get ''timestamp'' data"
    "obj_get ''model'' ?d = obj_get ''model'' data"
    "obj_get ''architectureChoice'' ?d = obj_get ''architectureChoice'' data"
    "obj_get ''historyManagementChoice'' ?d = obj_get ''historyManagementChoice'' data"
    "obj_has ''timestamp'' ?d = obj_has ''timestamp'' data"
    by (simp_all add: obj_get_obj_set obj_has_obj_set)
  have tail: "z_shape [(''model'', ModelSchema), (''architectureChoice'', ArchitectureSchema),
      (''historyManagementChoice'', HistoryManagementSchema)] ?d = Inr ?tail"
    unfolding ModelSchema_def ArchitectureSchema_def HistoryManagementSchema_def
    by (intro z_shape_Cons_defined) (simp_all only: g f n not_False_eq_True z_shape.simps)
  have mid: "z_shape [(''timestamp'', z_optional z_string), (''model'', ModelSchema),
      (''architectureChoice'', ArchitectureSchema),
      (''historyManagementChoice'', HistoryManagementSchema)] ?d
      = Inr ((if ?ts \<noteq> JUndefined \<or> obj_has ''timestamp'' data then [(''timestamp'', ?ts)] else []) @ ?tail)"
    using z_shape_Cons_optional [OF _ tail, of "z_optional z_string" "''timestamp''" ?ts]
    by (simp add: g f del: z_shape.simps)
  have shape: "z_shape [(''type'', z_string), (''sessionId'', z_string), (''messageId'', z_string),
      (''message'', z_string), (''timestamp'', z_optional z_string), (''model'', ModelSchema),
      (''architectureChoice'', ArchitectureSchema),
      (''historyManagementChoice'', HistoryManagementSchema)] ?d = Inr message"
    unfolding message_def append_Cons append_Nil
    by (intro z_shape_Cons_defined mid) (simp_all only: g f f2 n not_False_eq_True jsval.distinct)
  have parsed: "RequestDataSchema (JObj ?d) = Inr (JObj message)"
    by (simp add: RequestDataSchema_def z_object_def shape del: z_shape.simps)
  define payload where "payload = requestDataToJson message"
  have step: "ws_step (WsConnected, c) (ParentActor_sendMessage data)
       = Inr (WsConnected, c, [SocketEmit sock ''text_message'' payload])"
    by (simp add: sendMessage_def sid sock parsed payload_def)
  have props: "obj_has ''type'' payload \<and> obj_has ''session_id'' payload \<and>
     obj_has ''message_id'' payload \<and> obj_get ''session_id'' payload = JStr sid \<and>
     obj_get ''type'' payload = obj_get ''type'' data \<and>
     obj_get ''message_id'' payload = obj_get ''messageId'' data"
  proof (cases "?ts \<noteq> JUndefined \<or> obj_has ''timestamp'' data")
    case True
    then have "payload = [(''type'', obj_get ''type'' data), (''session_id'', JStr sid),
        (''message_id'', obj_get ''messageId'' data), (''message'', obj_get ''message'' data),
        (''timestamp'', ?ts), (''model'', obj_get ''model'' data),
        (''architecture_choice'', obj_get ''architectureChoice'' data),
        (''history_management_choice'', obj_get ''historyManagementChoice'' data)]"
      unfolding payload_def message_def by (simp only: if_True append_Cons append_Nil request_to_json_with_timestamp)
    then show ?thesis by (simp add: obj_has_def obj_get_def)
  next
    case False
    then have "payload = [(''type'', obj_get ''type'' data), (''session_id'', JStr sid),
        (''message_id'', obj_get ''messageId'' data), (''message'', obj_get ''message'' data),
        (''model'', obj_get ''model'' data),
        (''architecture_choice'', obj_get ''architectureChoice'' data),
        (''history_management_choice'', obj_get ''historyManagementChoice'' data)]"
      unfolding payload_def message_def by (simp only: if_False append_Cons append_Nil request_to_json_without_timestamp)
    then show ?thesis by (simp add: obj_has_def obj_get_def)
  qed
  show ?thesis using step props by blast
qed


theorem sendMessage_envelope_witness:
  "\<exists>payload.
     ws_step (WsConnected, \<lparr>socket = Some 3, sessionId = Some ''s1'', reconnectionAttempts = 0\<rparr>)
       (ParentActor_sendMessage
          [(''type'', JStr ''textMessage''), (''sessionId'', JStr ''other''),
           (''messageId'', JStr ''m1''), (''message'', JStr ''hello''), (''model'', JStr ''gpt-4o''),
           (''architectureChoice'', JStr ''llm-router''),
           (''historyManagementChoice'', JStr ''keep-all'')])
       = Inr (WsConnected, \<lparr>socket = Some 3, sessionId = Some ''s1'', reconnectionAttempts = 0\<rparr>,
              [SocketEmit 3 ''text_message'' payload]) \<and>
     obj_has ''type'' payload \<and> obj_has ''session_id'' payload \<and> obj_has ''message_id'' payload \<and>
     obj_get ''session_id'' payload = JStr ''s1'' \<and>
     obj_get ''type'' payload = JStr ''textMessage'' \<and>
     obj_get ''message_id'' payload = JStr ''m1''"
proof -
  let ?c = "\<lparr>socket = Some 3, sessionId = Some ''s1'', reconnectionAttempts = 0\<rparr>"
  let ?data = "[(''type'', JStr ''textMessage''), (''sessionId'', JStr ''other''),
           (''messageId'', JStr ''m1''), (''message'', JStr ''hello''), (''model'', JStr ''gpt-4o''),
           (''architectureChoice'', JStr ''llm-router''),
           (''historyManagementChoice'', JStr ''keep-all'')]"
  have ok: "succeeds (RequestDataSchema (JObj ?data))"
    by code_simp
  have "sessionId ?c = Some ''s1''" "socket ?c = Some 3" by simp_all
  from sendMessage_envelope [OF this ok] show ?thesis
    by (simp add: obj_get_def)
qed

section \<open>The accuracy test runner\<close>






text \<open>
  The loop in general: with test cases that all have expected products and replies that
  all have products, a run of a fresh runner over \<open>n\<close> test cases (\<open>n\<close> at least 2) is in
  \<open>disconnecting\<close> after \<open>n - 1\<close> replies, with \<open>n - 1\<close> results and progress 100.
\<close>

lemma accuracy_reply:
  assumes k: "currentTestIndex c < length (testCases c)"
    and e: "tc_products (testCases c ! currentTestIndex c) = Some expected"
    and a: "rm_products r = Some actual"
  shows "accuracy_step (AccSendingMessage, c) (WebSocketMessageReceived r) =
     evaluatingResult
       (c\<lparr>testResults := testResults c @
            [\<lparr>response = r, productAccuracy = calculateProductAccuracy actual (Some expected),
              passed = isTestPassed (calculateProductAccuracy actual (Some expected))\<rparr>],
          currentTestIndex := currentTestIndex c + 1,
          progress := js_times (js_div (currentTestIndex c + 2) (length (testCases c))) 100\<rparr>)"
  using k by (simp add: updateTestResults_def e a Let_def increaseProgress_def increaseCurrentTestIndex_def)

lemma accuracy_loop:
  assumes "\<forall>t \<in> set (testCases c). tc_products t \<noteq> None"
    and "\<forall>r \<in> set rs. rm_products r \<noteq> None"
    and "currentTestIndex c + length rs + 1 = length (testCases c)"
    and "rs \<noteq> []"
  shows "\<exists>c' out. accuracy_run (AccSendingMessage, c) (map WebSocketMessageReceived rs)
            = Inr (AccDisconnecting, c', out) \<and>
          length (testResults c') = length (testResults c) + length rs \<and>
          progress c' = Finite 100 \<and> testCases c' = testCases c"
  using assms
proof (induction rs arbitrary: c)
  case Nil
  then show ?case by simp
next
  case (Cons r rs)
  let ?n = "length (testCases c)"
  have k: "currentTestIndex c < ?n" using Cons.prems(3) by simp
  then have "testCases c ! currentTestIndex c \<in> set (testCases c)" by simp
  then obtain expected where e: "tc_products (testCases c ! currentTestIndex c) = Some expected"
    using Cons.prems(1) by auto
  obtain actual where a: "rm_products r = Some actual"
    using Cons.prems(2) by auto
  let ?c1 = "c\<lparr>testResults := testResults c @
            [\<lparr>response = r, productAccuracy = calculateProductAccuracy actual (Some expected),
              passed = isTestPassed (calculateProductAccuracy actual (Some expected))\<rparr>],
          currentTestIndex := currentTestIndex c + 1,
          progress := js_times (js_div (currentTestIndex c + 2) ?n) 100\<rparr>"
  note step = accuracy_reply [OF k e a]
  show ?case
  proof (cases "rs = []")
    case True
    then have n: "currentTestIndex c + 2 = ?n" using Cons.prems(3) by simp
    have complete: "testIsComplete ?c1" using n by (simp add: testIsComplete_def)
    have "?n \<noteq> 0" using n by (cases "testCases c") simp_all
    then have "js_times (js_div (currentTestIndex c + 2) ?n) 100 = Finite 100"
      using n by (simp add: js_div_def del: length_0_conv)
    then show ?thesis
      using True complete by (simp add: step evaluatingResult_def del: accuracy_step.simps)
  next
    case False
    then have n: "currentTestIndex c + 2 < ?n" using Cons.prems(3) by (cases rs) auto
    have incomplete: "\<not> testIsComplete ?c1" using n by (simp add: testIsComplete_def)
    have "sendNextMessage ?c1 \<noteq> Inl TypeError"
      using n by (simp add: sendNextMessage_def Let_def)
    then obtain msg where msg: "sendNextMessage ?c1 = Inr msg"
      using n by (simp add: sendNextMessage_def Let_def)
    have s1: "accuracy_step (AccSendingMessage, c) (WebSocketMessageReceived r)
        = Inr (AccSendingMessage, ?c1, [msg])"
      using incomplete msg
      by (simp add: step evaluatingResult_def enter_sendingMessage_def del: accuracy_step.simps)
    have "\<exists>c' out. accuracy_run (AccSendingMessage, ?c1) (map WebSocketMessageReceived rs)
            = Inr (AccDisconnecting, c', out) \<and>
          length (testResults c') = length (testResults ?c1) + length rs \<and>
          progress c' = Finite 100 \<and> testCases c' = testCases ?c1"
      using Cons.prems False by (intro Cons.IH) simp_all
    then obtain c' out where r: "accuracy_run (AccSendingMessage, ?c1) (map WebSocketMessageReceived rs)
            = Inr (AccDisconnecting, c', out)"
        "length (testResults c') = length (testResults ?c1) + length rs"
        "progress c' = Finite 100" "testCases c' = testCases ?c1"
      by blast
    have "accuracy_run (AccSendingMessage, c) (map WebSocketMessageReceived (r # rs))
        = Inr (AccDisconnecting, c', [msg] @ out)"
      using s1 r(1) by (simp del: accuracy_step.simps)
    then show ?thesis using r(2-4) by simp
  qed
qed

lemma accuracy_run_stops_one_short:
  assumes tcs: "\<forall>t \<in> set (in_testCases input). tc_products t \<noteq> None"
    and rs: "\<forall>r \<in> set rs. rm_products r \<noteq> None"
    and n: "length rs + 1 = length (in_testCases input)" "rs \<noteq> []"
  shows "\<exists>c' out. accuracy_run (AccIdle, accuracy_initial_context input)
            ([UserStartTest, WebSocketConnected] @ map WebSocketMessageReceived rs)
            = Inr (AccDisconnecting, c', out) \<and>
          length (testResults c') = length (in_testCases input) - 1 \<and>
          progress c' = Finite 100"
proof -
  let ?c = "accuracy_initial_context input"
  have c: "testCases ?c = in_testCases input" "currentTestIndex ?c = 0" "testResults ?c = []"
    by (simp_all add: accuracy_initial_context_def)
  have pos: "0 < length (testCases ?c)" using n unfolding c by (cases "in_testCases input") simp_all
  then obtain msg where msg: "sendNextMessage ?c = Inr msg"
    by (simp add: sendNextMessage_def Let_def c)
  have "\<exists>c' out. accuracy_run (AccSendingMessage, ?c) (map WebSocketMessageReceived rs)
            = Inr (AccDisconnecting, c', out) \<and>
          length (testResults c') = length (testResults ?c) + length rs \<and>
          progress c' = Finite 100 \<and> testCases c' = testCases ?c"
    using tcs rs n by (intro accuracy_loop) (simp_all add: c)
  then obtain c' out where r: "accuracy_run (AccSendingMessage, ?c) (map WebSocketMessageReceived rs)
            = Inr (AccDisconnecting, c', out)"
      "length (testResults c') = length (testResults ?c) + length rs" "progress c' = Finite 100"
    by blast
  have "accuracy_run (AccIdle, ?c) ([UserStartTest, WebSocketConnected] @ map WebSocketMessageReceived rs)
      = Inr (AccDisconnecting, c', [ParentActorConnect (ac_sessionId ?c)] @ [msg] @ out)"
    by (simp add: enter_sendingMessage_def msg r(1))
  then show ?thesis using r(2,3) n c by auto
qed

text \<open>
  Claim C2 does not hold of the code. \<open>increaseCurrentTestIndex\<close> runs before the guard
  \<open>testIsComplete\<close>, which compares the index with the number of test cases less one. With
  two test cases the run is in \<open>disconnecting\<close> after the first reply, with one result;
  with one test case \<open>increaseProgress\<close>, which also runs on the increased index, leaves
  the progress at 200.
\<close>

theorem accuracy_run_skips_last_test_case:
  "(case accuracy_run
       (AccIdle, accuracy_initial_context
          \<lparr>in_name = ''t'', in_sessionId = ''s'',
           in_testCases =
             [\<lparr>tc_messageId = ''m1'', tc_prompt = ''p1'', tc_products = Some [\<lparr>name = ''Board''\<rparr>]\<rparr>,
              \<lparr>tc_messageId = ''m2'', tc_prompt = ''p2'', tc_products = Some [\<lparr>name = ''Kit''\<rparr>]\<rparr>],
           in_model = ''gpt-4o'', in_architecture = ''llm-router'',
           in_historyManagement = ''keep-none''\<rparr>)
       [UserStartTest, WebSocketConnected,
        WebSocketMessageReceived \<lparr>rm_messageId = ''m1'', rm_products = Some [\<lparr>name = ''Board''\<rparr>]\<rparr>] of
     Inl e \<Rightarrow> False
   | Inr (s, c, out) \<Rightarrow>
       s = AccDisconnecting \<and> length (testCases c) = 2 \<and> length (testResults c) = 1 \<and>
       progress c = Finite 100) \<and>
   (case accuracy_run
       (AccIdle, accuracy_initial_context
          \<lparr>in_name = ''t'', in_sessionId = ''s'',
           in_testCases =
             [\<lparr>tc_messageId = ''m1'', tc_prompt = ''p1'', tc_products = Some [\<lparr>name = ''Board''\<rparr>]\<rparr>],
           in_model = ''gpt-4o'', in_architecture = ''llm-router'',
           in_historyManagement = ''keep-none''\<rparr>)
       [UserStartTest, WebSocketConnected,
        WebSocketMessageReceived \<lparr>rm_messageId = ''m1'', rm_products = Some [\<lparr>name = ''Board''\<rparr>]\<rparr>] of
     Inl e \<Rightarrow> False
   | Inr (s, c, out) \<Rightarrow>
       s = AccDisconnecting \<and> length (testCases c) = 1 \<and> length (testResults c) = 1 \<and>
       progress c = Finite 200)"
  by (simp add: accuracy_initial_context_def enter_sendingMessage_def sendNextMessage_def
      updateTestResults_def increaseProgress_def increaseCurrentTestIndex_def testIsComplete_def
      evaluatingResult_def calculateProductAccuracy_def js_div_def isTestPassed_def)

section \<open>Chat state persistence\<close>





section \<open>The application machine\<close>






text \<open>
  Importing a state file. A file that cannot be read or is not valid JSON makes the
  \<open>importState\<close> actor fail: the machine emits the error notification and is back in
  \<open>displayingImportStateForm\<close> with the snapshot it had. A state that deserialises
  replaces the context.
\<close>

lemma import_unreadable_file:
  assumes "app_value s = ImportingState_displayingImportStateForm"
    and "importStateFromFile pf file = Inl err"
  shows "submit_import pf spawn s file
     = Inr (s, [InvokeImportState file, Notify ''error'' ''Failed to import state''])"
  using assms
  by (simp add: submit_import_def appMachine_step_def displayingImportStateForm_on_def
      importingState_on_def importState_outcome_def importState_def)

lemma import_invalid_json:
  assumes "app_value s = ImportingState_displayingImportStateForm"
    and "JSON_parse pf text = None"
  shows "submit_import pf spawn s (Some text)
     = Inr (s, [InvokeImportState (Some text), Notify ''error'' ''Failed to import state''])"
  using assms by (intro import_unreadable_file) (simp_all add: importStateFromFile_def)

text \<open>
  A file that is valid JSON makes the actor succeed, and the version is checked only in
  the \<open>assign\<close> action of \<open>onDone\<close>: the error of a wrong version is thrown there, inside the
  transition, and stops the machine.
\<close>

lemma import_version_mismatch:
  assumes "app_value s = ImportingState_displayingImportStateForm"
    and "JSON_parse pf text = Some (JObj saved)"
    and "obj_get ''version'' saved \<noteq> JStr ''1.1''"
  shows "submit_import pf spawn s (Some text)
     = Inl (ErrorFrom ''Invalid state file: ''
             (ErrorAbout ''Unsupported state version. Expected 1.1, got '' (obj_get ''version'' saved)))"
  using assms
  by (simp add: submit_import_def appMachine_step_def displayingImportStateForm_on_def
      importingState_on_def importState_outcome_def importState_def importStateFromFile_def
      deserializeAppState_def and_then_def read_prop_def APP_STATE_VERSION_def)

lemma import_success:
  assumes "app_value s = ImportingState_displayingImportStateForm"
    and "JSON_parse pf text = Some saved"
    and "deserializeAppState pf spawn saved = Inr state"
  shows "submit_import pf spawn s (Some text)
     = Inr (s\<lparr>app_value := Open (app_history s), app_context := obj_assign (app_context s) state\<rparr>,
            [InvokeImportState (Some text), Notify ''success'' ''State imported successfully'',
             open_entry (app_history s) (obj_assign (app_context s) state)])"
  using assms
  by (simp add: submit_import_def appMachine_step_def displayingImportStateForm_on_def
      importingState_on_def importState_outcome_def importState_def importStateFromFile_def
      enter_open_history_def)

text \<open>
  Claim C5 does not hold of the code for a wrong version. Importing the file
  \<^verbatim>\<open>{"version":"1.0"}\<close> does not emit the error notification and does not return to
  \<open>displayingImportStateForm\<close>: the step ends in the error thrown by \<open>deserializeAppState\<close>.
\<close>

theorem import_version_mismatch_stops_machine:
  "submit_import example_platform spawn_actor
     \<lparr>app_value = ImportingState_displayingImportStateForm, app_history = Chatting,
      app_context = example_app_context\<rparr>
     version_1_0_file
   = Inl (ErrorFrom ''Invalid state file: ''
           (ErrorAbout ''Unsupported state version. Expected 1.1, got '' (JStr ''1.0'')))"
  by (simp add: submit_import_def appMachine_step_def displayingImportStateForm_on_def
      importingState_on_def importState_outcome_def importState_def importStateFromFile_def
      deserializeAppState_def and_then_def read_prop_def APP_STATE_VERSION_def
      example_platform_def version_1_0_file_def obj_get_def)

section \<open>Longest common subsequence\<close>

lemma subseq_rev: "subseq xs ys \<Longrightarrow> subseq (rev xs) (rev ys)"
  by (induction rule: list_emb.induct) (auto intro: subseq_rev_drop_many)

lemma common_le_lcs_ref:
  "subseq s xs \<Longrightarrow> subseq s ys \<Longrightarrow> length s \<le> lcs_ref xs ys"
proof (induction xs ys arbitrary: s rule: lcs_ref.induct)
  case (3 x xs y ys)
  show ?case
  proof (cases s)
    case Nil then show ?thesis by simp
  next
    case (Cons z t)
    show ?thesis
    proof (cases "x = y")
      case True
      show ?thesis
      proof (cases "z = x")
        case zx: True
        with Cons "3.prems" True have "subseq t xs" "subseq t ys" by auto
        with "3.IH"(1)[OF True] have "length t \<le> lcs_ref xs ys" by blast
        with Cons True show ?thesis by simp
      next
        case zx: False
        with Cons "3.prems" True have "subseq s xs" "subseq s ys" by auto
        with "3.IH"(1)[OF True] have "length s \<le> lcs_ref xs ys" by blast
        with True show ?thesis by simp
      qed
    next
      case False
      have "subseq s xs \<or> subseq s ys"
        using Cons "3.prems" False by (cases "z = x") auto
      then show ?thesis
      proof
        assume "subseq s xs"
        with "3.IH"(2)[OF False] "3.prems"(2) have "length s \<le> lcs_ref xs (y # ys)" by blast
        with False show ?thesis by simp
      next
        assume "subseq s ys"
        with "3.IH"(3)[OF False] "3.prems"(1) have "length s \<le> lcs_ref (x # xs) ys" by blast
        with False show ?thesis by simp
      qed
    qed
  qed
qed auto

lemma lcs_ref_attained:
  "\<exists>s. subseq s xs \<and> subseq s ys \<and> length s = lcs_ref xs ys"
proof (induction xs ys rule: lcs_ref.induct)
  case (3 x xs y ys)
  show ?case
  proof (cases "x = y")
    case True
    from "3.IH"(1)[OF True] obtain s where "subseq s xs" "subseq s ys" "length s = lcs_ref xs ys" by blast
    with True have "subseq (x # s) (x # xs) \<and> subseq (x # s) (y # ys) \<and> length (x # s) = lcs_ref (x # xs) (y # ys)"
      by simp
    then show ?thesis by blast
  next
    case False
    from "3.IH"(2)[OF False] obtain s1 where s1: "subseq s1 xs" "subseq s1 (y # ys)" "length s1 = lcs_ref xs (y # ys)" by blast
    from "3.IH"(3)[OF False] obtain s2 where s2: "subseq s2 (x # xs)" "subseq s2 ys" "length s2 = lcs_ref (x # xs) ys" by blast
    show ?thesis
    proof (cases "lcs_ref xs (y # ys) \<le> lcs_ref (x # xs) ys")
      case le: True
      with s2 False have "subseq s2 (x # xs) \<and> subseq s2 (y # ys) \<and> length s2 = lcs_ref (x # xs) (y # ys)"
        by (simp add: max_def list_emb_Cons)
      then show ?thesis by blast
    next
      case le: False
      with s1 False have "subseq s1 (x # xs) \<and> subseq s1 (y # ys) \<and> length s1 = lcs_ref (x # xs) (y # ys)"
        by (simp add: max_def list_emb_Cons)
      then show ?thesis by blast
    qed
  qed
qed auto

lemma lcs_ref_Nil2: "lcs_ref xs [] = 0"
  by (cases xs) auto

lemma lcs_ref_rev_le: "lcs_ref xs ys \<le> lcs_ref (rev xs) (rev ys)"
proof -
  obtain s where "subseq s xs" "subseq s ys" "length s = lcs_ref xs ys"
    using lcs_ref_attained by blast
  then have "length (rev s) \<le> lcs_ref (rev xs) (rev ys)"
    using common_le_lcs_ref subseq_rev by blast
  with \<open>length s = lcs_ref xs ys\<close> show ?thesis by simp
qed

lemma lcs_ref_rev: "lcs_ref (rev xs) (rev ys) = lcs_ref xs ys"
  using lcs_ref_rev_le [of xs ys] lcs_ref_rev_le [of "rev xs" "rev ys"] by simp

lemma lcs_ref_snoc:
  "lcs_ref (xs @ [x]) (ys @ [y]) =
     (if x = y then Suc (lcs_ref xs ys)
      else max (lcs_ref xs (ys @ [y])) (lcs_ref (xs @ [x]) ys))"
proof -
  have "lcs_ref (xs @ [x]) (ys @ [y]) = lcs_ref (x # rev xs) (y # rev ys)"
    using lcs_ref_rev [of "xs @ [x]" "ys @ [y]"] by simp
  moreover have "lcs_ref (rev xs) (y # rev ys) = lcs_ref xs (ys @ [y])"
    using lcs_ref_rev [of xs "ys @ [y]"] by simp
  moreover have "lcs_ref (x # rev xs) (rev ys) = lcs_ref (xs @ [x]) ys"
    using lcs_ref_rev [of "xs @ [x]" ys] by simp
  ultimately show ?thesis by (simp add: lcs_ref_rev)
qed

definition lcs_prefix :: "'a list \<Rightarrow> 'a list \<Rightarrow> nat \<Rightarrow> nat \<Rightarrow> nat" where
  "lcs_prefix a b r c = lcs_ref (take r a) (take c b)"

lemma lcs_prefix_0 [simp]: "lcs_prefix a b 0 c = 0" "lcs_prefix a b r 0 = 0"
  by (simp_all add: lcs_prefix_def lcs_ref_Nil2)

lemma lcs_prefix_Suc:
  assumes "r < length a" "c < length b"
  shows "lcs_prefix a b (Suc r) (Suc c) =
     (if a ! r = b ! c then Suc (lcs_prefix a b r c)
      else max (lcs_prefix a b r (Suc c)) (lcs_prefix a b (Suc r) c))"
  using assms by (simp add: lcs_prefix_def take_Suc_conv_app_nth lcs_ref_snoc)

definition table_ok :: "string list \<Rightarrow> string list \<Rightarrow> nat \<Rightarrow> nat \<Rightarrow> nat list list \<Rightarrow> bool" where
  "table_ok a b i j dp \<longleftrightarrow>
     length dp = length a + 1 \<and>
     (\<forall>r \<le> length a. length (dp ! r) = length b + 1) \<and>
     (\<forall>r c. r \<le> length a \<longrightarrow> c \<le> length b \<longrightarrow>
        dp ! r ! c = (if r < i \<or> (r = i \<and> c < j) then lcs_prefix a b r c else 0))"

lemma nth_replicate_le: "r \<le> m \<Longrightarrow> replicate (m + 1) x ! r = x"
  using nth_replicate [of r "m + 1" x] by simp

lemma dp_init_nth:
  "r \<le> m \<Longrightarrow> c \<le> n \<Longrightarrow> dp_init m n ! r ! c = 0"
  "r \<le> m \<Longrightarrow> length (dp_init m n ! r) = n + 1"
  "length (dp_init m n) = m + 1"
  unfolding dp_init_def by (simp_all only: nth_replicate_le length_replicate)

lemma table_ok_init: "table_ok a b 1 1 (dp_init (length a) (length b))"
  unfolding table_ok_def
proof (intro conjI allI impI)
  fix r c assume rc: "r \<le> length a" "c \<le> length b"
  have "r < 1 \<or> (r = 1 \<and> c < 1) \<Longrightarrow> lcs_prefix a b r c = 0"
    by auto
  then show "dp_init (length a) (length b) ! r ! c =
      (if r < 1 \<or> (r = 1 \<and> c < 1) then lcs_prefix a b r c else 0)"
    using rc by (simp only: dp_init_nth split: if_split) simp
qed (simp_all only: dp_init_nth)

lemma dp_cell_correct:
  assumes ok: "table_ok a b i j dp" and i: "1 \<le> i" "i \<le> length a" and j: "1 \<le> j" "j \<le> length b"
  shows "dp_cell a b dp i j = lcs_prefix a b i j"
proof -
  obtain i' j' where ij: "i = Suc i'" "j = Suc j'"
    using i j by (metis One_nat_def Suc_le_D)
  have c1: "dp ! i' ! j' = lcs_prefix a b i' j'"
    using ok i j ij by (simp add: table_ok_def)
  have c2: "dp ! i' ! j = lcs_prefix a b i' j"
    using ok i j ij by (simp add: table_ok_def)
  have c3: "dp ! i ! j' = lcs_prefix a b i j'"
    using ok i j ij by (simp add: table_ok_def)
  show ?thesis
    using c1 c2 c3 i j ij by (simp add: dp_cell_def lcs_prefix_Suc)
qed

lemma table_ok_step:
  assumes ok: "table_ok a b i j dp" and i: "1 \<le> i" "i \<le> length a" and j: "1 \<le> j" "j \<le> length b"
  shows "table_ok a b i (j + 1) (dp[i := (dp ! i)[j := dp_cell a b dp i j]])"
proof -
  have cell: "dp_cell a b dp i j = lcs_prefix a b i j"
    using dp_cell_correct [OF ok i j] .
  let ?dp = "dp[i := (dp ! i)[j := lcs_prefix a b i j]]"
  have len: "length dp = length a + 1"
    and rows: "\<And>r. r \<le> length a \<Longrightarrow> length (dp ! r) = length b + 1"
    and cells: "\<And>r c. r \<le> length a \<Longrightarrow> c \<le> length b \<Longrightarrow>
        dp ! r ! c = (if r < i \<or> (r = i \<and> c < j) then lcs_prefix a b r c else 0)"
    using ok unfolding table_ok_def by blast+
  have i_lt: "i < length dp" using len i by simp
  have row: "?dp ! r = (if r = i then (dp ! i)[j := lcs_prefix a b i j] else dp ! r)" for r
    using i_lt by (simp add: nth_list_update)
  have j_lt: "j < length (dp ! i)" using rows [OF i(2)] j by simp
  have "length ?dp = length a + 1" using len by simp
  moreover have "length (?dp ! r) = length b + 1" if "r \<le> length a" for r
    using rows [OF that] by (cases "r = i") (simp_all add: row)
  moreover have "?dp ! r ! c =
      (if r < i \<or> (r = i \<and> c < j + 1) then lcs_prefix a b r c else 0)"
    if rc: "r \<le> length a" "c \<le> length b" for r c
  proof (cases "r = i \<and> c = j")
    case True
    then show ?thesis using j_lt by (simp add: row)
  next
    case False
    then have "?dp ! r ! c = dp ! r ! c"
      by (auto simp: row)
    also have "\<dots> = (if r < i \<or> (r = i \<and> c < j) then lcs_prefix a b r c else 0)"
      using cells [OF rc] .
    also have "\<dots> = (if r < i \<or> (r = i \<and> c < j + 1) then lcs_prefix a b r c else 0)"
      using False by (auto simp: less_Suc_eq)
    finally show ?thesis .
  qed
  ultimately show ?thesis unfolding table_ok_def cell by blast
qed

lemma table_ok_row_end:
  assumes "table_ok a b i (length b + 1) dp"
  shows "table_ok a b (i + 1) 1 dp"
  using assms unfolding table_ok_def by (auto simp: less_Suc_eq)

lemma lcs_inner_ok:
  "table_ok a b i j dp \<Longrightarrow> 1 \<le> i \<Longrightarrow> i \<le> length a \<Longrightarrow> 1 \<le> j \<Longrightarrow> j \<le> length b + 1
   \<Longrightarrow> table_ok a b (i + 1) 1 (lcs_inner a b i j dp)"
proof (induction a b i j dp rule: lcs_inner.induct)
  case (1 arr1 arr2 i j dp)
  show ?case
  proof (cases "j \<le> length arr2")
    case True
    have "table_ok arr1 arr2 i (j + 1) (dp[i := (dp ! i)[j := dp_cell arr1 arr2 dp i j]])"
      using table_ok_step [OF "1.prems"(1) "1.prems"(2) "1.prems"(3) "1.prems"(4) True] .
    then have "table_ok arr1 arr2 (i + 1) 1
        (lcs_inner arr1 arr2 i (j + 1) (dp[i := (dp ! i)[j := dp_cell arr1 arr2 dp i j]]))"
      using "1.IH" [OF True] "1.prems" True by simp
    then show ?thesis using True by (subst lcs_inner.simps) simp
  next
    case False
    with "1.prems" have "j = length arr2 + 1" by simp
    with "1.prems"(1) have "table_ok arr1 arr2 (i + 1) 1 dp"
      using table_ok_row_end by blast
    then show ?thesis using False by (subst lcs_inner.simps) simp
  qed
qed

lemma lcs_outer_ok:
  "table_ok a b i 1 dp \<Longrightarrow> 1 \<le> i \<Longrightarrow> i \<le> length a + 1
   \<Longrightarrow> table_ok a b (length a + 1) 1 (lcs_outer a b i dp)"
proof (induction a b i dp rule: lcs_outer.induct)
  case (1 arr1 arr2 i dp)
  show ?case
  proof (cases "i \<le> length arr1")
    case True
    have "table_ok arr1 arr2 (i + 1) 1 (lcs_inner arr1 arr2 i 1 dp)"
      using lcs_inner_ok [OF "1.prems"(1) "1.prems"(2) True] by simp
    then have "table_ok arr1 arr2 (length arr1 + 1) 1
        (lcs_outer arr1 arr2 (i + 1) (lcs_inner arr1 arr2 i 1 dp))"
      using "1.IH" [OF True] True by simp
    then show ?thesis using True by (subst lcs_outer.simps) simp
  next
    case False
    with "1.prems" have "i = length arr1 + 1" by simp
    with "1.prems"(1) show ?thesis using False by (subst lcs_outer.simps) simp
  qed
qed

lemma longestCommonSubsequence_eq_ref: "longestCommonSubsequence a b = lcs_ref a b"
proof -
  have "table_ok a b (length a + 1) 1 (lcs_outer a b 1 (dp_init (length a) (length b)))"
    using lcs_outer_ok [OF table_ok_init] by simp
  then have "lcs_outer a b 1 (dp_init (length a) (length b)) ! length a ! length b
      = lcs_prefix a b (length a) (length b)"
    by (simp add: table_ok_def)
  then show ?thesis by (simp add: longestCommonSubsequence_def lcs_prefix_def)
qed

lemma lcs_ref_sym: "lcs_ref xs ys = lcs_ref ys xs"
  by (induction xs ys rule: lcs_ref.induct) (auto simp: lcs_ref_Nil2 max.commute)

lemma lcs_ref_refl: "lcs_ref xs xs = length xs"
  by (induction xs) auto

text \<open>
  Claim C10. For all string arrays \<open>arr1\<close> and \<open>arr2\<close>, \<open>longestCommonSubsequence\<close> returns the
  length of a longest common subsequence as the recursive reference definition gives it;
  it is symmetric in its arguments, and on two equal arrays it returns their length.
\<close>

theorem longestCommonSubsequence_correct:
  "longestCommonSubsequence arr1 arr2 = lcs_ref arr1 arr2 \<and>
   longestCommonSubsequence arr1 arr2 = longestCommonSubsequence arr2 arr1 \<and>
   longestCommonSubsequence arr1 arr1 = length arr1"
  using lcs_ref_sym [of arr1 arr2] by (simp add: longestCommonSubsequence_eq_ref lcs_ref_refl)

end
